theory Spec2Isabelle
  imports Main "HOL-Library.Word" "HOL-Library.Multiset"
begin

section \<open>The tensor and storage model of hannk (apps/hannk/interpreter/model.cpp)\<close>

text \<open>
  The embedding follows \<^verbatim>\<open>model.cpp\<close> function by function. Objects reached through
  \<^verbatim>\<open>std::shared_ptr\<close> (tensors, storages) live in an explicit heap and are named by
  their address; a C++ \<^verbatim>\<open>int\<close> is a 32-bit word read as two's complement; every
  \<^verbatim>\<open>assert\<close> is a branch that returns an error (the build with assertions enabled).
\<close>

subsection \<open>Machine integers\<close>

type_synonym int32 = "32 word"
type_synonym addr = nat

text \<open>\<^verbatim>\<open>std::min(a, b)\<close> is \<^verbatim>\<open>(b < a) ? b : a\<close> and \<^verbatim>\<open>std::max(a, b)\<close> is
  \<^verbatim>\<open>(a < b) ? b : a\<close>, on signed values.\<close>

definition std_min :: "int32 \<Rightarrow> int32 \<Rightarrow> int32" where
  "std_min a b = (if sint b < sint a then b else a)"

definition std_max :: "int32 \<Rightarrow> int32 \<Rightarrow> int32" where
  "std_max a b = (if sint a < sint b then b else a)"

subsection \<open>Types consumed from collaborators\<close>

text \<open>Modelled from the spec: \<^verbatim>\<open>halide_type_t\<close> (the Halide runtime header is not part of
  the sources at hand) is a scalar type descriptor, element kind and width, compared with
  equality.\<close>

record halide_type_t =
  code :: "8 word"
  bits :: "8 word"
  lanes :: "16 word"

text \<open>Modelled from the spec: \<^verbatim>\<open>Interval\<close> and \<^verbatim>\<open>Box\<close> (hannk's util headers are
  not part of the sources at hand). An interval is an inclusive range with fields
  \<^verbatim>\<open>min\<close> and \<^verbatim>\<open>max\<close>, and \<^verbatim>\<open>extent()\<close> is \<^verbatim>\<open>max - min + 1\<close>; a box is
  one interval for each dimension.\<close>

record Interval =
  interval_min :: int32
  interval_max :: int32

definition Interval_extent :: "Interval \<Rightarrow> int32" where
  "Interval_extent iv = interval_max iv - interval_min iv + 1"

type_synonym Box = "Interval list"

text \<open>Modelled from the spec: \<^verbatim>\<open>HalideBuffer<void>\<close> (the Halide runtime buffer is not
  part of the sources at hand). A buffer has a type, one (min, extent) pair for each dimension
  and a data pointer that is null iff the buffer is unallocated; copying a buffer copies the
  shape and shares the data. \<^verbatim>\<open>dim(i).max()\<close> is \<^verbatim>\<open>min + extent - 1\<close>. Strides are
  left out: no operation of \<^verbatim>\<open>model.cpp\<close> reads them.\<close>

record halide_dimension_t =
  dim_min :: int32
  dim_extent :: int32

definition dim_max :: "halide_dimension_t \<Rightarrow> int32" where
  "dim_max d = dim_min d + dim_extent d - 1"

record HalideBuffer =
  buf_type :: halide_type_t
  buf_dim :: "halide_dimension_t list"
  buf_data :: "addr option"

definition dimensions :: "HalideBuffer \<Rightarrow> nat" where
  "dimensions b = length (buf_dim b)"

text \<open>Modelled from the spec: the default-constructed buffer has no dimensions and no data
  (its element type is the 8-bit unsigned one).\<close>

definition HalideBuffer_default :: HalideBuffer where
  "HalideBuffer_default =
     \<lparr>buf_type = \<lparr>code = 1, bits = 8, lanes = 1\<rparr>, buf_dim = [], buf_data = None\<rparr>"

text \<open>Modelled from the spec: construct-from-shape, \<^verbatim>\<open>HalideBuffer<void>(type, extents)\<close>:
  every dimension starts at 0 with the given extent; the tensor it describes is
  "to be allocated later", so the data pointer is null.\<close>

definition HalideBuffer_of_shape :: "halide_type_t \<Rightarrow> int32 list \<Rightarrow> HalideBuffer" where
  "HalideBuffer_of_shape ty extents =
     \<lparr>buf_type = ty, buf_dim = map (\<lambda>e. \<lparr>dim_min = 0, dim_extent = e\<rparr>) extents,
      buf_data = None\<rparr>"

text \<open>Modelled from the spec: \<^verbatim>\<open>translate(d, dx)\<close> moves the min of dimension \<open>d\<close>, and
  \<^verbatim>\<open>crop(d, min, extent)\<close> restricts dimension \<open>d\<close> to the given range of the same
  allocation. Every call in \<^verbatim>\<open>model.cpp\<close> passes a dimension below
  \<^verbatim>\<open>dimensions()\<close>.\<close>

definition translate :: "HalideBuffer \<Rightarrow> nat \<Rightarrow> int32 \<Rightarrow> HalideBuffer" where
  "translate b d dx =
     b\<lparr>buf_dim := (buf_dim b)[d := (buf_dim b ! d)\<lparr>dim_min := dim_min (buf_dim b ! d) + dx\<rparr>]\<rparr>"

definition crop :: "HalideBuffer \<Rightarrow> nat \<Rightarrow> int32 \<Rightarrow> int32 \<Rightarrow> HalideBuffer" where
  "crop b d mn ext = b\<lparr>buf_dim := (buf_dim b)[d := \<lparr>dim_min = mn, dim_extent = ext\<rparr>]\<rparr>"

text \<open>Modelled from the spec: construct-with-shape-of-another,
  \<^verbatim>\<open>HalideBuffer<void>::make_with_shape_of(b)\<close>: a buffer of the same type, mins and
  extents over a new allocation; \<open>p\<close> is the address the allocator hands out.\<close>

definition make_with_shape_of :: "addr \<Rightarrow> HalideBuffer \<Rightarrow> HalideBuffer" where
  "make_with_shape_of p b = b\<lparr>buf_data := Some p\<rparr>"

subsection \<open>make_buffer\<close>

definition make_buffer :: "halide_type_t \<Rightarrow> Box \<Rightarrow> HalideBuffer" where
  "make_buffer ty bounds =
     (let extents = map Interval_extent bounds;
          buffer = HalideBuffer_of_shape ty extents
      in fold (\<lambda>i b. translate b i (interval_min (bounds ! i))) [0..<length bounds] buffer)"

subsection \<open>TensorStorage\<close>

datatype error = AssertionFailed | OutOfRange | NullPointer

record TensorStorage =
  storage_buffer :: HalideBuffer

definition TensorStorage_default :: TensorStorage where
  "TensorStorage_default = \<lparr>storage_buffer = HalideBuffer_default\<rparr>"

definition TensorStorage_ctor :: "HalideBuffer \<Rightarrow> error + TensorStorage" where
  "TensorStorage_ctor buffer =
     (if buf_data buffer \<noteq> None then Inl AssertionFailed
      else Inr \<lparr>storage_buffer = buffer\<rparr>)"

text \<open>One round of the loop of \<^verbatim>\<open>add_use\<close>: dimension \<open>i\<close> of the buffer becomes the
  union of itself and \<open>bounds[i]\<close>.\<close>

definition add_use_dim :: "Box \<Rightarrow> nat \<Rightarrow> HalideBuffer \<Rightarrow> HalideBuffer" where
  "add_use_dim bounds i b =
     (let new_min = std_min (dim_min (buf_dim b ! i)) (interval_min (bounds ! i));
          new_max = std_max (dim_max (buf_dim b ! i)) (interval_max (bounds ! i))
      in b\<lparr>buf_dim := (buf_dim b)[i := \<lparr>dim_min = new_min,
                                        dim_extent = new_max - new_min + 1\<rparr>]\<rparr>)"

definition add_use :: "TensorStorage \<Rightarrow> halide_type_t \<Rightarrow> Box \<Rightarrow> error + TensorStorage" where
  "add_use s ty bounds =
     (if dimensions (storage_buffer s) = 0 then
        Inr (s\<lparr>storage_buffer := make_buffer ty bounds\<rparr>)
      else if buf_type (storage_buffer s) \<noteq> ty then Inl AssertionFailed
      else if dimensions (storage_buffer s) \<noteq> length bounds then Inl AssertionFailed
      else if buf_data (storage_buffer s) \<noteq> None then Inl AssertionFailed
      else Inr (s\<lparr>storage_buffer :=
                   fold (add_use_dim bounds) [0..<dimensions (storage_buffer s)]
                     (storage_buffer s)\<rparr>))"

definition TensorStorage_is_allocated :: "TensorStorage \<Rightarrow> bool" where
  "TensorStorage_is_allocated s = (buf_data (storage_buffer s) \<noteq> None)"

definition TensorStorage_allocate :: "addr \<Rightarrow> TensorStorage \<Rightarrow> TensorStorage" where
  "TensorStorage_allocate p s =
     (if buf_data (storage_buffer s) = None
      then s\<lparr>storage_buffer := make_with_shape_of p (storage_buffer s)\<rparr>
      else s)"

text \<open>A sequence of \<^verbatim>\<open>add_use\<close> calls on one storage; the first failed assertion ends
  it.\<close>

fun add_uses :: "TensorStorage \<Rightarrow> (halide_type_t \<times> Box) list \<Rightarrow> error + TensorStorage" where
  "add_uses s [] = Inr s"
| "add_uses s (u # us) =
     (case add_use s (fst u) (snd u) of Inl e \<Rightarrow> Inl e | Inr s' \<Rightarrow> add_uses s' us)"

subsection \<open>Tensor\<close>

text \<open>The quantization metadata is opaque to this code: a type parameter. The fields are
  \<^verbatim>\<open>name_\<close>, \<^verbatim>\<open>buffer_\<close>, \<^verbatim>\<open>quantization_\<close>, \<^verbatim>\<open>is_constant_\<close> and
  \<^verbatim>\<open>storage_\<close>, a shared pointer that is null (\<open>None\<close>) until a storage is bound.\<close>

record 'q Tensor =
  tensor_name :: string
  tensor_buffer :: HalideBuffer
  tensor_quantization :: 'q
  tensor_is_constant :: bool
  tensor_storage :: "addr option"

definition Tensor_ctor :: "string \<Rightarrow> HalideBuffer \<Rightarrow> 'q \<Rightarrow> 'q Tensor" where
  "Tensor_ctor name buffer quantization =
     \<lparr>tensor_name = name, tensor_buffer = buffer, tensor_quantization = quantization,
      tensor_is_constant = (buf_data buffer \<noteq> None), tensor_storage = None\<rparr>"

definition Tensor_ctor_bounds :: "string \<Rightarrow> halide_type_t \<Rightarrow> Box \<Rightarrow> 'q \<Rightarrow> 'q Tensor" where
  "Tensor_ctor_bounds name ty bounds quantization =
     Tensor_ctor name (make_buffer ty bounds) quantization"

definition Tensor_is_allocated :: "'q Tensor \<Rightarrow> bool" where
  "Tensor_is_allocated t = (buf_data (tensor_buffer t) \<noteq> None)"

text \<open>Modelled from the spec: the accessors \<^verbatim>\<open>type()\<close> and \<^verbatim>\<open>box()\<close> of the header
  \<^verbatim>\<open>model.h\<close>, which is not part of the sources at hand: the element type and the
  declared bounds of the tensor, read from its own buffer.\<close>

definition Tensor_type :: "'q Tensor \<Rightarrow> halide_type_t" where
  "Tensor_type t = buf_type (tensor_buffer t)"

definition Tensor_box :: "'q Tensor \<Rightarrow> Box" where
  "Tensor_box t =
     map (\<lambda>d. \<lparr>interval_min = dim_min d, interval_max = dim_max d\<rparr>) (buf_dim (tensor_buffer t))"

text \<open>Modelled from the spec: the copy constructor of \<^verbatim>\<open>Tensor\<close>, declared in the header
  \<^verbatim>\<open>model.h\<close>, which is not part of the sources at hand: "a fresh independent copy (same
  name/type/bounds/quantization, no storage binding yet)".\<close>

definition Tensor_copy :: "'q Tensor \<Rightarrow> 'q Tensor" where
  "Tensor_copy t =
     \<lparr>tensor_name = tensor_name t, tensor_buffer = tensor_buffer t,
      tensor_quantization = tensor_quantization t,
      tensor_is_constant = tensor_is_constant t, tensor_storage = None\<rparr>"

subsection \<open>The heap\<close>

text \<open>Tensors and storages are shared through \<^verbatim>\<open>std::shared_ptr\<close>: an object is named by
  its address, its index in the list of the objects made so far, and \<^verbatim>\<open>make_shared\<close>
  appends. \<open>next_data\<close> is the next address the buffer allocator hands out, \<open>next_op\<close> the
  address of the next op that is made. Dereferencing an address that names no object is the
  error \<open>NullPointer\<close>.\<close>

record 'q heap =
  tensor_objs :: "'q Tensor list"
  storage_objs :: "TensorStorage list"
  next_data :: addr
  next_op :: addr

definition heap_empty :: "'q heap" where
  "heap_empty = \<lparr>tensor_objs = [], storage_objs = [], next_data = 0, next_op = 0\<rparr>"

definition Tensor_storage :: "'q heap \<Rightarrow> addr \<Rightarrow> error + ('q heap \<times> addr)" where
  "Tensor_storage h t =
     (if length (tensor_objs h) \<le> t then Inl NullPointer
      else case tensor_storage (tensor_objs h ! t) of
        Some s \<Rightarrow> Inr (h, s)
      | None \<Rightarrow>
          (case TensorStorage_ctor (tensor_buffer (tensor_objs h ! t)) of
             Inl e \<Rightarrow> Inl e
           | Inr S \<Rightarrow>
               Inr (h\<lparr>tensor_objs := (tensor_objs h)
                         [t := (tensor_objs h ! t)\<lparr>tensor_storage := Some (length (storage_objs h))\<rparr>],
                       storage_objs := storage_objs h @ [S]\<rparr>,
                    length (storage_objs h))))"

text \<open>\<^verbatim>\<open>storage()->allocate()\<close> through the shared pointer \<open>s\<close>: the allocator is asked
  only when the storage has no data yet.\<close>

definition storage_allocate :: "'q heap \<Rightarrow> addr \<Rightarrow> error + 'q heap" where
  "storage_allocate h s =
     (if length (storage_objs h) \<le> s then Inl NullPointer
      else if TensorStorage_is_allocated (storage_objs h ! s) then Inr h
      else Inr (h\<lparr>storage_objs := (storage_objs h)
                      [s := TensorStorage_allocate (next_data h) (storage_objs h ! s)],
                  next_data := Suc (next_data h)\<rparr>))"

text \<open>The loop of \<^verbatim>\<open>Tensor::allocate\<close> over the dimensions of the storage's buffer:
  \<open>own\<close> is the tensor's \<^verbatim>\<open>buffer_\<close>, and reading \<^verbatim>\<open>buffer_.dim(i)\<close> beyond its rank
  is the error \<open>OutOfRange\<close>.\<close>

fun allocate_crop :: "HalideBuffer \<Rightarrow> nat list \<Rightarrow> HalideBuffer \<Rightarrow> error + HalideBuffer" where
  "allocate_crop own [] buffer = Inr buffer"
| "allocate_crop own (i # is) buffer =
     (if length (buf_dim own) \<le> i then Inl OutOfRange
      else if \<not> sint (dim_min (buf_dim buffer ! i)) \<le> sint (dim_min (buf_dim own ! i))
        then Inl AssertionFailed
      else if \<not> sint (dim_max (buf_dim buffer ! i)) \<ge> sint (dim_max (buf_dim own ! i))
        then Inl AssertionFailed
      else allocate_crop own is
             (crop buffer i (dim_min (buf_dim own ! i)) (dim_extent (buf_dim own ! i))))"

definition Tensor_allocate :: "'q heap \<Rightarrow> addr \<Rightarrow> error + 'q heap" where
  "Tensor_allocate h t =
     (if length (tensor_objs h) \<le> t then Inl NullPointer
      else if buf_data (tensor_buffer (tensor_objs h ! t)) \<noteq> None then Inr h
      else case Tensor_storage h t of
        Inl e \<Rightarrow> Inl e
      | Inr (h1, s) \<Rightarrow>
          (case storage_allocate h1 s of
             Inl e \<Rightarrow> Inl e
           | Inr h2 \<Rightarrow>
               (case Tensor_storage h2 t of
                  Inl e \<Rightarrow> Inl e
                | Inr (h3, s') \<Rightarrow>
                    (if length (storage_objs h3) \<le> s' then Inl NullPointer
                     else case allocate_crop (tensor_buffer (tensor_objs h3 ! t))
                                 [0..<dimensions (storage_buffer (storage_objs h3 ! s'))]
                                 (storage_buffer (storage_objs h3 ! s')) of
                       Inl e \<Rightarrow> Inl e
                     | Inr buffer \<Rightarrow>
                         Inr (h3\<lparr>tensor_objs := (tensor_objs h3)
                                   [t := (tensor_objs h3 ! t)\<lparr>tensor_buffer := buffer\<rparr>]\<rparr>)))))"

definition Tensor_set_alias_of :: "'q heap \<Rightarrow> addr \<Rightarrow> addr \<Rightarrow> error + 'q heap" where
  "Tensor_set_alias_of h a t =
     (case Tensor_storage h t of
        Inl e \<Rightarrow> Inl e
      | Inr (h1, s) \<Rightarrow>
          (if length (tensor_objs h1) \<le> a then Inl NullPointer
           else let h2 = h1\<lparr>tensor_objs := (tensor_objs h1)
                              [a := (tensor_objs h1 ! a)\<lparr>tensor_storage := Some s\<rparr>]\<rparr>
                in if length (storage_objs h2) \<le> s then Inl NullPointer
                   else case add_use (storage_objs h2 ! s) (Tensor_type (tensor_objs h2 ! a))
                               (Tensor_box (tensor_objs h2 ! a)) of
                     Inl e \<Rightarrow> Inl e
                   | Inr S \<Rightarrow> Inr (h2\<lparr>storage_objs := (storage_objs h2)[s := S]\<rparr>)))"

subsection \<open>Op and Model\<close>

text \<open>Modelled from the spec: \<^verbatim>\<open>Op\<close> is an abstract class of the header \<^verbatim>\<open>model.h\<close>,
  which is not part of the sources at hand. This code uses its inputs and outputs, tensors
  referenced by address, through \<^verbatim>\<open>input_count()\<close>, \<^verbatim>\<open>input(k)\<close>,
  \<^verbatim>\<open>output_count()\<close> and \<^verbatim>\<open>output(j)\<close>. An element of the list of
  \<^verbatim>\<open>std::unique_ptr<Op>\<close> is the op it owns together with the address \<^verbatim>\<open>get()\<close>
  returns.\<close>

record Op =
  op_addr :: addr
  op_inputs :: "addr list"
  op_outputs :: "addr list"

definition input_count :: "Op \<Rightarrow> nat" where
  "input_count i = length (op_inputs i)"

definition output_count :: "Op \<Rightarrow> nat" where
  "output_count i = length (op_outputs i)"

type_synonym TensorMap = "addr \<rightharpoonup> addr"

definition apply_map :: "TensorMap \<Rightarrow> addr \<Rightarrow> addr" where
  "apply_map m t = (case m t of Some t' \<Rightarrow> t' | None \<Rightarrow> t)"

text \<open>Modelled from the spec: the clone-with-remap of an op, implemented by every op class
  outside the sources at hand: a new op (at address \<open>p\<close>) whose tensor references are the
  original's, each passed through \<^verbatim>\<open>apply\<close> with the mapping.\<close>

definition Op_clone :: "addr \<Rightarrow> TensorMap \<Rightarrow> Op \<Rightarrow> Op" where
  "Op_clone p m i =
     \<lparr>op_addr = p, op_inputs = map (apply_map m) (op_inputs i),
      op_outputs = map (apply_map m) (op_outputs i)\<rparr>"

record Model =
  tensors :: "addr list"
  ops :: "Op list"

text \<open>The first loop of the copy constructor, over the copied list of shared pointers.\<close>

fun Model_copy_tensors ::
  "'q heap \<Rightarrow> TensorMap \<Rightarrow> addr list \<Rightarrow> error + ('q heap \<times> TensorMap \<times> addr list)" where
  "Model_copy_tensors h m [] = Inr (h, m, [])"
| "Model_copy_tensors h m (i # rest) =
     (if length (tensor_objs h) \<le> i then Inl NullPointer
      else if \<not> Tensor_is_allocated (tensor_objs h ! i) then
        (case Model_copy_tensors
                (h\<lparr>tensor_objs := tensor_objs h @ [Tensor_copy (tensor_objs h ! i)]\<rparr>)
                (m(i \<mapsto> length (tensor_objs h))) rest of
           Inl e \<Rightarrow> Inl e
         | Inr (h', m', rest') \<Rightarrow> Inr (h', m', length (tensor_objs h) # rest'))
      else
        (case Model_copy_tensors h m rest of
           Inl e \<Rightarrow> Inl e
         | Inr (h', m', rest') \<Rightarrow> Inr (h', m', i # rest')))"

text \<open>The second loop of the copy constructor, over the ops of the source.\<close>

fun Model_copy_ops :: "'q heap \<Rightarrow> TensorMap \<Rightarrow> Op list \<Rightarrow> 'q heap \<times> Op list" where
  "Model_copy_ops h m [] = (h, [])"
| "Model_copy_ops h m (i # rest) =
     (case Model_copy_ops (h\<lparr>next_op := Suc (next_op h)\<rparr>) m rest of
        (h', rest') \<Rightarrow> (h', Op_clone (next_op h) m i # rest'))"

definition Model_copy :: "'q heap \<Rightarrow> Model \<Rightarrow> error + ('q heap \<times> Model)" where
  "Model_copy h copy =
     (case Model_copy_tensors h Map.empty (tensors copy) of
        Inl e \<Rightarrow> Inl e
      | Inr (h1, m, ts) \<Rightarrow>
          (case Model_copy_ops h1 m (ops copy) of
             (h2, os) \<Rightarrow> Inr (h2, \<lparr>tensors = ts, ops = os\<rparr>)))"

text \<open>\<^verbatim>\<open>Model::insert(std::shared_ptr<Tensor>, const Tensor *after)\<close>: the scan of the
  tensor list, and \<^verbatim>\<open>push_back\<close> when it ends.\<close>

fun insert_after :: "addr \<Rightarrow> addr \<Rightarrow> addr list \<Rightarrow> addr list" where
  "insert_after to_insert after [] = [to_insert]"
| "insert_after to_insert after (i # rest) =
     (if i = after then i # to_insert # rest
      else i # insert_after to_insert after rest)"

definition Model_insert_tensor :: "Model \<Rightarrow> addr \<Rightarrow> addr \<Rightarrow> Model" where
  "Model_insert_tensor m to_insert after =
     m\<lparr>tensors := insert_after to_insert after (tensors m)\<rparr>"

text \<open>The two inner loops of \<^verbatim>\<open>Model::insert(std::unique_ptr<Op>, const Op *before)\<close>:
  some input of \<open>i\<close> is some output of \<open>to_insert\<close>.\<close>

definition consumes_output_of :: "Op \<Rightarrow> Op \<Rightarrow> bool" where
  "consumes_output_of i to_insert =
     list_ex (\<lambda>j. list_ex (\<lambda>k. op_inputs i ! k = op_outputs to_insert ! j)
                    [0..<input_count i])
       [0..<output_count to_insert]"

fun insert_before :: "Op \<Rightarrow> addr \<Rightarrow> Op list \<Rightarrow> Op list" where
  "insert_before to_insert before [] = [to_insert]"
| "insert_before to_insert before (i # rest) =
     (if op_addr i = before then to_insert # i # rest
      else if consumes_output_of i to_insert then to_insert # i # rest
      else i # insert_before to_insert before rest)"

definition Model_insert_op :: "Model \<Rightarrow> Op \<Rightarrow> addr \<Rightarrow> Model" where
  "Model_insert_op m to_insert before =
     m\<lparr>ops := insert_before to_insert before (ops m)\<rparr>"

subsection \<open>Notions used to state the properties\<close>

text \<open>The dimension that covers exactly an interval, and the union of a dimension with an
  interval, as one round of the loop of \<^verbatim>\<open>add_use\<close> computes it.\<close>

definition dim_of_interval :: "Interval \<Rightarrow> halide_dimension_t" where
  "dim_of_interval iv = \<lparr>dim_min = interval_min iv, dim_extent = Interval_extent iv\<rparr>"

definition union_dim :: "halide_dimension_t \<Rightarrow> Interval \<Rightarrow> halide_dimension_t" where
  "union_dim d iv =
     \<lparr>dim_min = std_min (dim_min d) (interval_min iv),
      dim_extent = std_max (dim_max d) (interval_max iv)
                     - std_min (dim_min d) (interval_min iv) + 1\<rparr>"

text \<open>The buffer \<open>b\<close> covers the box: it has a dimension for each interval of the box, and
  the interval lies within that dimension.\<close>

definition covers :: "HalideBuffer \<Rightarrow> Box \<Rightarrow> bool" where
  "covers b box \<longleftrightarrow>
     length box \<le> length (buf_dim b) \<and>
     list_all (\<lambda>i. sint (dim_min (buf_dim b ! i)) \<le> sint (interval_min (box ! i)) \<and>
                   sint (interval_max (box ! i)) \<le> sint (dim_max (buf_dim b ! i)))
       [0..<length box]"

text \<open>The topological invariant of an op list: for every op, every op that consumes one of
  its outputs appears after it.\<close>

definition topological :: "Op list \<Rightarrow> bool" where
  "topological os \<longleftrightarrow>
     list_all (\<lambda>i. list_all (\<lambda>j. consumes_output_of (os ! j) (os ! i) \<longrightarrow> i < j)
                     [0..<length os])
       [0..<length os]"

text \<open>The position at which \<^verbatim>\<open>insert(op, before)\<close> stops its scan: the first op that is
  the anchor or consumes an output of the new op; the length of the list when there is
  none.\<close>

fun insert_pos :: "Op \<Rightarrow> addr \<Rightarrow> Op list \<Rightarrow> nat" where
  "insert_pos to_insert before [] = 0"
| "insert_pos to_insert before (i # rest) =
     (if op_addr i = before \<or> consumes_output_of i to_insert then 0
      else Suc (insert_pos to_insert before rest))"

text \<open>The dimension \<open>d\<close> lies within the dimension \<open>e\<close>: the two comparisons that
  \<^verbatim>\<open>Tensor::allocate\<close> asserts.\<close>

definition dim_within :: "halide_dimension_t \<Rightarrow> halide_dimension_t \<Rightarrow> bool" where
  "dim_within d e \<longleftrightarrow>
     sint (dim_min e) \<le> sint (dim_min d) \<and> sint (dim_max d) \<le> sint (dim_max e)"

text \<open>The buffer of the storage that \<^verbatim>\<open>storage()\<close> returns for the tensor at \<open>t\<close>: the
  bound one, or a new one seeded with the tensor's own buffer.\<close>

definition storage_buffer_of :: "'q heap \<Rightarrow> addr \<Rightarrow> HalideBuffer" where
  "storage_buffer_of h t =
     (case tensor_storage (tensor_objs h ! t) of
        None \<Rightarrow> tensor_buffer (tensor_objs h ! t)
      | Some s \<Rightarrow> storage_buffer (storage_objs h ! s))"

text \<open>The invariant of bound storages: every storage pointer of a tensor names a storage
  whose buffer covers the declared bounds of the tensor.\<close>

definition storages_cover :: "'q heap \<Rightarrow> bool" where
  "storages_cover h \<longleftrightarrow>
     (\<forall>t<length (tensor_objs h). \<forall>s. tensor_storage (tensor_objs h ! t) = Some s \<longrightarrow>
        s < length (storage_objs h) \<and>
        covers (storage_buffer (storage_objs h ! s)) (Tensor_box (tensor_objs h ! t)))"

subsection \<open>Example states\<close>

text \<open>A 32-bit signed integer type; two unbound tensors \<open>a\<close> over \<open>[0, 9]\<close> and \<open>b\<close> over
  \<open>[-2, 7]\<close>; the heap after \<open>a\<close> is made an alias of \<open>b\<close>; a heap whose storage is too
  narrow for its tensor; and a model with an allocated tensor \<open>w\<close>, an unallocated tensor
  \<open>x\<close> and one op that reads both and writes \<open>x\<close>.\<close>

definition i32 :: halide_type_t where "i32 = \<lparr>code = 0, bits = 32, lanes = 1\<rparr>"

definition example_alias_heap :: "unit heap" where
  "example_alias_heap =
     heap_empty\<lparr>tensor_objs :=
       [Tensor_ctor_bounds ''a'' i32 [\<lparr>interval_min = 0, interval_max = 9\<rparr>] (),
        Tensor_ctor_bounds ''b'' i32 [\<lparr>interval_min = - 2, interval_max = 7\<rparr>] ()]\<rparr>"

definition example_aliased_heap :: "unit heap" where
  "example_aliased_heap =
     \<lparr>tensor_objs =
        [(Tensor_ctor_bounds ''a'' i32 [\<lparr>interval_min = 0, interval_max = 9\<rparr>] ())
           \<lparr>tensor_storage := Some 0\<rparr>,
         (Tensor_ctor_bounds ''b'' i32 [\<lparr>interval_min = - 2, interval_max = 7\<rparr>] ())
           \<lparr>tensor_storage := Some 0\<rparr>],
      storage_objs =
        [\<lparr>storage_buffer = \<lparr>buf_type = i32, buf_dim = [\<lparr>dim_min = - 2, dim_extent = 12\<rparr>],
                             buf_data = None\<rparr>\<rparr>],
      next_data = 0, next_op = 0\<rparr>"

definition example_narrow_heap :: "unit heap" where
  "example_narrow_heap =
     \<lparr>tensor_objs =
        [(Tensor_ctor_bounds ''a'' i32 [\<lparr>interval_min = 0, interval_max = 9\<rparr>] ())
           \<lparr>tensor_storage := Some 0\<rparr>],
      storage_objs =
        [\<lparr>storage_buffer = \<lparr>buf_type = i32, buf_dim = [\<lparr>dim_min = 0, dim_extent = 4\<rparr>],
                             buf_data = None\<rparr>\<rparr>],
      next_data = 0, next_op = 0\<rparr>"

definition example_model_heap :: "unit heap" where
  "example_model_heap =
     \<lparr>tensor_objs =
        [Tensor_ctor ''w'' \<lparr>buf_type = i32, buf_dim = [\<lparr>dim_min = 0, dim_extent = 4\<rparr>],
                             buf_data = Some 7\<rparr> (),
         Tensor_ctor_bounds ''x'' i32 [\<lparr>interval_min = 0, interval_max = 3\<rparr>] ()],
      storage_objs = [], next_data = 8, next_op = 1\<rparr>"

definition example_model :: Model where
  "example_model =
     \<lparr>tensors = [0, 1], ops = [\<lparr>op_addr = 0, op_inputs = [0, 1], op_outputs = [1]\<rparr>]\<rparr>"

text \<open>Two unbound tensors, \<open>a\<close> over \<open>[0, 9]\<close> and a scalar \<open>b\<close> (rank 0), and the heap
  after \<open>a\<close> is made an alias of \<open>b\<close>; a heap whose tensor of rank 2 is bound to a storage of
  rank 1; and a scalar \<open>t\<close> next to a tensor \<open>u\<close> of another type, before and after \<open>t\<close> is
  allocated.\<close>

definition example_scalar_heap :: "unit heap" where
  "example_scalar_heap =
     heap_empty\<lparr>tensor_objs :=
       [Tensor_ctor_bounds ''a'' i32 [\<lparr>interval_min = 0, interval_max = 9\<rparr>] (),
        Tensor_ctor_bounds ''b'' i32 [] ()]\<rparr>"

definition example_scalar_aliased_heap :: "unit heap" where
  "example_scalar_aliased_heap =
     \<lparr>tensor_objs =
        [(Tensor_ctor_bounds ''a'' i32 [\<lparr>interval_min = 0, interval_max = 9\<rparr>] ())
           \<lparr>tensor_storage := Some 0\<rparr>,
         (Tensor_ctor_bounds ''b'' i32 [] ())\<lparr>tensor_storage := Some 0\<rparr>],
      storage_objs =
        [\<lparr>storage_buffer = \<lparr>buf_type = i32, buf_dim = [\<lparr>dim_min = 0, dim_extent = 10\<rparr>],
                             buf_data = None\<rparr>\<rparr>],
      next_data = 0, next_op = 0\<rparr>"

definition example_low_rank_heap :: "unit heap" where
  "example_low_rank_heap =
     \<lparr>tensor_objs =
        [(Tensor_ctor_bounds ''a'' i32
            [\<lparr>interval_min = 0, interval_max = 3\<rparr>, \<lparr>interval_min = 0, interval_max = 3\<rparr>] ())
           \<lparr>tensor_storage := Some 0\<rparr>],
      storage_objs =
        [\<lparr>storage_buffer = \<lparr>buf_type = i32, buf_dim = [\<lparr>dim_min = 0, dim_extent = 4\<rparr>],
                             buf_data = None\<rparr>\<rparr>],
      next_data = 0, next_op = 0\<rparr>"

definition f32 :: halide_type_t where "f32 = \<lparr>code = 2, bits = 32, lanes = 1\<rparr>"

definition example_unallocated_scalar_heap :: "unit heap" where
  "example_unallocated_scalar_heap =
     heap_empty\<lparr>tensor_objs :=
       [Tensor_ctor_bounds ''u'' f32 [\<lparr>interval_min = 0, interval_max = 3\<rparr>] (),
        Tensor_ctor_bounds ''t'' i32 [] ()]\<rparr>"

definition example_allocated_scalar_heap :: "unit heap" where
  "example_allocated_scalar_heap =
     \<lparr>tensor_objs =
        [Tensor_ctor_bounds ''u'' f32 [\<lparr>interval_min = 0, interval_max = 3\<rparr>] (),
         (Tensor_ctor_bounds ''t'' i32 [] ())
           \<lparr>tensor_storage := Some 0,
            tensor_buffer := \<lparr>buf_type = i32, buf_dim = [], buf_data = Some 0\<rparr>\<rparr>],
      storage_objs = [\<lparr>storage_buffer = \<lparr>buf_type = i32, buf_dim = [], buf_data = Some 0\<rparr>\<rparr>],
      next_data = 1, next_op = 0\<rparr>"

section \<open>Properties\<close>

subsection \<open>Storage bounds: the loops as maps\<close>

lemma fold_dims:
  assumes step: "\<And>i b. step i b = b\<lparr>buf_dim := (buf_dim b)[i := g i (buf_dim b ! i)]\<rparr>"
  shows "n \<le> length (buf_dim b) \<Longrightarrow>
    fold step [0..<n] b = b\<lparr>buf_dim := map (\<lambda>i. g i (buf_dim b ! i)) [0..<n] @ drop n (buf_dim b)\<rparr>"
proof (induction n)
  case 0
  then show ?case by simp
next
  case (Suc n)
  then have n: "n < length (buf_dim b)" by simp
  have d: "drop n (buf_dim b) = buf_dim b ! n # drop (Suc n) (buf_dim b)"
    using n by (simp add: Cons_nth_drop_Suc)
  show ?case using Suc.IH n
    by (simp add: step d list_update_append nth_append)
qed

lemma sint_std_min: "sint (std_min a b) = min (sint a) (sint b)"
  by (simp add: std_min_def min_def)

lemma sint_std_max: "sint (std_max a b) = max (sint a) (sint b)"
  by (simp add: std_max_def max_def)

lemma dim_max_mk: "dim_max \<lparr>dim_min = mn, dim_extent = mx - mn + 1\<rparr> = mx"
  by (simp add: dim_max_def)

lemma make_buffer_eq:
  "make_buffer ty bounds = \<lparr>buf_type = ty, buf_dim = map dim_of_interval bounds, buf_data = None\<rparr>"
proof -
  let ?b = "HalideBuffer_of_shape ty (map Interval_extent bounds)"
  have "fold (\<lambda>i b. translate b i (interval_min (bounds ! i))) [0..<length bounds] ?b
      = ?b\<lparr>buf_dim := map (\<lambda>i. (buf_dim ?b ! i)\<lparr>dim_min := dim_min (buf_dim ?b ! i) + interval_min (bounds ! i)\<rparr>) [0..<length bounds]
            @ drop (length bounds) (buf_dim ?b)\<rparr>"
    by (rule fold_dims [where g = "\<lambda>i d. d\<lparr>dim_min := dim_min d + interval_min (bounds ! i)\<rparr>"])
       (simp_all add: translate_def HalideBuffer_of_shape_def)
  moreover have "map (\<lambda>i. (buf_dim ?b ! i)\<lparr>dim_min := dim_min (buf_dim ?b ! i) + interval_min (bounds ! i)\<rparr>) [0..<length bounds]
     = map dim_of_interval bounds"
    by (rule nth_equalityI) (simp_all add: HalideBuffer_of_shape_def dim_of_interval_def)
  ultimately show ?thesis
    by (simp add: make_buffer_def Let_def HalideBuffer_of_shape_def)
qed

lemma add_use_loop_eq:
  assumes "length (buf_dim b) = length bounds"
  shows "fold (add_use_dim bounds) [0..<dimensions b] b = b\<lparr>buf_dim := map2 union_dim (buf_dim b) bounds\<rparr>"
proof -
  have "fold (add_use_dim bounds) [0..<length (buf_dim b)] b
      = b\<lparr>buf_dim := map (\<lambda>i. union_dim (buf_dim b ! i) (bounds ! i)) [0..<length (buf_dim b)]
            @ drop (length (buf_dim b)) (buf_dim b)\<rparr>"
    by (rule fold_dims [where g = "\<lambda>i d. union_dim d (bounds ! i)"])
       (simp_all add: add_use_dim_def union_dim_def Let_def)
  moreover have "map (\<lambda>i. union_dim (buf_dim b ! i) (bounds ! i)) [0..<length (buf_dim b)]
     = map2 union_dim (buf_dim b) bounds"
    using assms by (intro nth_equalityI) simp_all
  ultimately show ?thesis
    by (simp add: dimensions_def)
qed

lemma add_use_fresh:
  "dimensions (storage_buffer s) = 0 \<Longrightarrow>
   add_use s ty bounds =
     Inr (s\<lparr>storage_buffer := \<lparr>buf_type = ty, buf_dim = map dim_of_interval bounds, buf_data = None\<rparr>\<rparr>)"
  by (simp add: add_use_def make_buffer_eq)

lemma add_use_union:
  assumes "buf_type (storage_buffer s) = ty" "buf_data (storage_buffer s) = None"
    and "length (buf_dim (storage_buffer s)) = length bounds"
  shows "add_use s ty bounds =
     Inr (s\<lparr>storage_buffer := \<lparr>buf_type = ty,
            buf_dim = map2 union_dim (buf_dim (storage_buffer s)) bounds, buf_data = None\<rparr>\<rparr>)"
proof (cases "dimensions (storage_buffer s) = 0")
  case True
  then have "bounds = []" "buf_dim (storage_buffer s) = []" using assms(3) by (simp_all add: dimensions_def)
  then show ?thesis using True by (simp add: add_use_fresh)
next
  case False
  have "fold (add_use_dim bounds) [0..<dimensions (storage_buffer s)] (storage_buffer s)
     = (storage_buffer s)\<lparr>buf_dim := map2 union_dim (buf_dim (storage_buffer s)) bounds\<rparr>"
    using assms(3) by (rule add_use_loop_eq)
  also have "\<dots> = \<lparr>buf_type = ty, buf_dim = map2 union_dim (buf_dim (storage_buffer s)) bounds, buf_data = None\<rparr>"
    using assms(1,2) by simp
  finally show ?thesis using False assms by (simp add: add_use_def dimensions_def)
qed

lemma add_uses_union:
  assumes "\<forall>u\<in>set us. fst u = ty \<and> length (snd u) = n"
  shows "buf_type (storage_buffer s) = ty \<Longrightarrow> buf_data (storage_buffer s) = None \<Longrightarrow>
    length (buf_dim (storage_buffer s)) = n \<Longrightarrow>
    add_uses s us = Inr (s\<lparr>storage_buffer := \<lparr>buf_type = ty,
            buf_dim = foldl (map2 union_dim) (buf_dim (storage_buffer s)) (map snd us), buf_data = None\<rparr>\<rparr>)"
  using assms
proof (induction us arbitrary: s)
  case Nil
  then show ?case by simp
next
  case (Cons u us)
  let ?s1 = "s\<lparr>storage_buffer := \<lparr>buf_type = ty,
            buf_dim = map2 union_dim (buf_dim (storage_buffer s)) (snd u), buf_data = None\<rparr>\<rparr>"
  have u: "fst u = ty" "length (snd u) = n" using Cons.prems by simp_all
  have 1: "add_use s (fst u) (snd u) = Inr ?s1"
    using Cons.prems u by (simp add: add_use_union)
  have 2: "add_uses ?s1 us = Inr (?s1\<lparr>storage_buffer := \<lparr>buf_type = ty,
            buf_dim = foldl (map2 union_dim) (buf_dim (storage_buffer ?s1)) (map snd us), buf_data = None\<rparr>\<rparr>)"
    using Cons.prems u by (intro Cons.IH) simp_all
  show ?case using 1 2 by simp
qed

lemma foldl_map2_nth:
  "\<forall>b\<in>set boxes. length b = length ds \<Longrightarrow> i < length ds \<Longrightarrow>
   length (foldl (map2 union_dim) ds boxes) = length ds \<and>
   foldl (map2 union_dim) ds boxes ! i = foldl union_dim (ds ! i) (map (\<lambda>b. b ! i) boxes)"
  by (induction boxes arbitrary: ds) simp_all

lemma foldl_map2_length:
  "\<forall>b\<in>set boxes. length b = length ds \<Longrightarrow> length (foldl (map2 union_dim) ds boxes) = length ds"
  by (induction boxes arbitrary: ds) simp_all

lemma dim_min_union_dim: "sint (dim_min (union_dim d iv)) = min (sint (dim_min d)) (sint (interval_min iv))"
  by (simp add: union_dim_def sint_std_min)

lemma dim_max_union_dim: "sint (dim_max (union_dim d iv)) = max (sint (dim_max d)) (sint (interval_max iv))"
  by (simp add: union_dim_def dim_max_mk sint_std_max)

lemma foldl_union_min:
  "sint (dim_min (foldl union_dim d ivs)) = Min (insert (sint (dim_min d)) ((\<lambda>iv. sint (interval_min iv)) ` set ivs))"
proof (induction ivs arbitrary: d)
  case Nil
  then show ?case by simp
next
  case (Cons iv ivs)
  have "Min (insert (min (sint (dim_min d)) (sint (interval_min iv))) ((\<lambda>iv. sint (interval_min iv)) ` set ivs))
      = Min (insert (sint (dim_min d)) (insert (sint (interval_min iv)) ((\<lambda>iv. sint (interval_min iv)) ` set ivs)))"
    by (cases "ivs = []") (simp_all add: min.assoc)
  then show ?case by (simp add: Cons.IH dim_min_union_dim)
qed

lemma foldl_union_max:
  "sint (dim_max (foldl union_dim d ivs)) = Max (insert (sint (dim_max d)) ((\<lambda>iv. sint (interval_max iv)) ` set ivs))"
proof (induction ivs arbitrary: d)
  case Nil
  then show ?case by simp
next
  case (Cons iv ivs)
  have "Max (insert (max (sint (dim_max d)) (sint (interval_max iv))) ((\<lambda>iv. sint (interval_max iv)) ` set ivs))
      = Max (insert (sint (dim_max d)) (insert (sint (interval_max iv)) ((\<lambda>iv. sint (interval_max iv)) ` set ivs)))"
    by (cases "ivs = []") (simp_all add: max.assoc)
  then show ?case by (simp add: Cons.IH dim_max_union_dim)
qed

lemma dim_of_interval_min: "dim_min (dim_of_interval iv) = interval_min iv"
  by (simp add: dim_of_interval_def)

lemma dim_of_interval_max: "dim_max (dim_of_interval iv) = interval_max iv"
  by (simp add: dim_of_interval_def dim_max_def Interval_extent_def)

lemma dim_eqI:
  "sint (dim_min d) = sint (dim_min e) \<Longrightarrow> sint (dim_max d) = sint (dim_max e) \<Longrightarrow>
   d = (e :: halide_dimension_t)"
proof -
  assume a: "sint (dim_min d) = sint (dim_min e)" and b: "sint (dim_max d) = sint (dim_max e)"
  from a have 1: "dim_min d = dim_min e" by (rule signed_word_eqI)
  from b have "dim_max d = dim_max e" by (rule signed_word_eqI)
  with 1 have "dim_extent d = dim_extent e" by (simp add: dim_max_def)
  with 1 show ?thesis by simp
qed

subsection \<open>The union of all uses (C4)\<close>

lemma add_uses_fresh:
  assumes fresh: "dimensions (storage_buffer s) = 0"
    and ne: "us \<noteq> []"
    and matching: "\<forall>u\<in>set us. fst u = ty \<and> length (snd u) = n"
  shows "\<exists>D. add_uses s us = Inr (s\<lparr>storage_buffer := \<lparr>buf_type = ty, buf_dim = D, buf_data = None\<rparr>\<rparr>) \<and>
     length D = n \<and>
     (\<forall>i<n. sint (dim_min (D ! i)) = Min ((\<lambda>u. sint (interval_min (snd u ! i))) ` set us) \<and>
            sint (dim_max (D ! i)) = Max ((\<lambda>u. sint (interval_max (snd u ! i))) ` set us))"
proof -
  obtain u rest where us: "us = u # rest" using ne by (cases us) auto
  let ?E = "map dim_of_interval (snd u)"
  let ?s1 = "s\<lparr>storage_buffer := \<lparr>buf_type = ty, buf_dim = ?E, buf_data = None\<rparr>\<rparr>"
  let ?D = "foldl (map2 union_dim) ?E (map snd rest)"
  have u: "fst u = ty" "length (snd u) = n" using matching us by simp_all
  have rest: "\<forall>v\<in>set rest. fst v = ty \<and> length (snd v) = n" using matching us by simp
  have 1: "add_use s (fst u) (snd u) = Inr ?s1"
    using fresh u by (simp add: add_use_fresh)
  have 2: "add_uses ?s1 rest = Inr (?s1\<lparr>storage_buffer := \<lparr>buf_type = ty,
            buf_dim = foldl (map2 union_dim) (buf_dim (storage_buffer ?s1)) (map snd rest), buf_data = None\<rparr>\<rparr>)"
    using u by (intro add_uses_union [OF rest]) simp_all
  have run: "add_uses s us = Inr (s\<lparr>storage_buffer := \<lparr>buf_type = ty, buf_dim = ?D, buf_data = None\<rparr>\<rparr>)"
    using 1 2 us by simp
  have boxes: "\<forall>b\<in>set (map snd rest). length b = length ?E" using rest u by simp
  have "length ?D = length ?E" using boxes by (rule foldl_map2_length)
  then have len: "length ?D = n" using u(2) by simp
  have dims: "sint (dim_min (?D ! i)) = Min ((\<lambda>u. sint (interval_min (snd u ! i))) ` set us) \<and>
            sint (dim_max (?D ! i)) = Max ((\<lambda>u. sint (interval_max (snd u ! i))) ` set us)" if "i < n" for i
  proof -
    have i: "i < length ?E" using that u by simp
    have nth: "?D ! i = foldl union_dim (dim_of_interval (snd u ! i)) (map (\<lambda>b. b ! i) (map snd rest))"
      using foldl_map2_nth [OF boxes i] i by simp
    show ?thesis
      by (simp add: nth foldl_union_min foldl_union_max dim_of_interval_min dim_of_interval_max
          us image_image)
  qed
  show ?thesis using run len dims by (intro exI [of _ ?D]) simp
qed

text \<open>C4. A storage that has had no use yet (its buffer has no dimension, as after
  \<^verbatim>\<open>TensorStorage()\<close>) receives a non-empty sequence of \<^verbatim>\<open>add_use\<close> calls that all
  have the type \<open>ty\<close> and the rank \<open>n\<close>. No call fails; the resulting buffer has that type
  and rank; in every dimension its min is the least of the supplied mins and its max the
  greatest of the supplied maxes (as signed values); and every reordering of the calls gives
  the same storage. The witness is the example of a 1-D storage that receives the bounds
  \<open>[-2, 7]\<close> and then \<open>[0, 9]\<close>, in both orders: min \<open>-2\<close>, max \<open>9\<close>, extent \<open>12\<close>.\<close>

theorem add_use_bounds_union:
  assumes fresh: "dimensions (storage_buffer s) = 0"
    and ne: "us \<noteq> []"
    and matching: "\<forall>u\<in>set us. fst u = ty \<and> length (snd u) = n"
  shows "\<exists>s'. add_uses s us = Inr s' \<and>
     buf_type (storage_buffer s') = ty \<and> dimensions (storage_buffer s') = n \<and>
     (\<forall>i<n. sint (dim_min (buf_dim (storage_buffer s') ! i))
               = Min ((\<lambda>u. sint (interval_min (snd u ! i))) ` set us) \<and>
            sint (dim_max (buf_dim (storage_buffer s') ! i))
               = Max ((\<lambda>u. sint (interval_max (snd u ! i))) ` set us)) \<and>
     (\<forall>us'. mset us' = mset us \<longrightarrow> add_uses s us' = Inr s')"
proof -
  obtain D where D: "add_uses s us = Inr (s\<lparr>storage_buffer := \<lparr>buf_type = ty, buf_dim = D, buf_data = None\<rparr>\<rparr>)"
      "length D = n"
      "\<And>i. i < n \<Longrightarrow> sint (dim_min (D ! i)) = Min ((\<lambda>u. sint (interval_min (snd u ! i))) ` set us) \<and>
            sint (dim_max (D ! i)) = Max ((\<lambda>u. sint (interval_max (snd u ! i))) ` set us)"
    using add_uses_fresh [OF fresh ne matching] by blast
  let ?s' = "s\<lparr>storage_buffer := \<lparr>buf_type = ty, buf_dim = D, buf_data = None\<rparr>\<rparr>"
  have perm: "add_uses s us' = Inr ?s'" if p: "mset us' = mset us" for us'
  proof -
    have set: "set us' = set us" using p by (rule mset_eq_setD)
    have ne': "us' \<noteq> []" using p ne by auto
    have m': "\<forall>u\<in>set us'. fst u = ty \<and> length (snd u) = n" using matching set by simp
    obtain D' where D': "add_uses s us' = Inr (s\<lparr>storage_buffer := \<lparr>buf_type = ty, buf_dim = D', buf_data = None\<rparr>\<rparr>)"
      "length D' = n"
      "\<And>i. i < n \<Longrightarrow> sint (dim_min (D' ! i)) = Min ((\<lambda>u. sint (interval_min (snd u ! i))) ` set us') \<and>
            sint (dim_max (D' ! i)) = Max ((\<lambda>u. sint (interval_max (snd u ! i))) ` set us')"
      using add_uses_fresh [OF fresh ne' m'] by blast
    have "D' = D"
    proof (rule nth_equalityI)
      show "length D' = length D" using D(2) D'(2) by simp
    next
      fix i assume "i < length D'"
      then have "i < n" using D'(2) by simp
      then show "D' ! i = D ! i"
        using D(3) [of i] D'(3) [of i] set by (intro dim_eqI) simp_all
    qed
    then show ?thesis using D'(1) by simp
  qed
  have "buf_type (storage_buffer ?s') = ty" "dimensions (storage_buffer ?s') = n"
    using D(2) by (simp_all add: dimensions_def)
  moreover have "\<forall>i<n. sint (dim_min (buf_dim (storage_buffer ?s') ! i))
               = Min ((\<lambda>u. sint (interval_min (snd u ! i))) ` set us) \<and>
            sint (dim_max (buf_dim (storage_buffer ?s') ! i))
               = Max ((\<lambda>u. sint (interval_max (snd u ! i))) ` set us)"
    using D(3) by simp
  moreover have "\<forall>us'. mset us' = mset us \<longrightarrow> add_uses s us' = Inr ?s'"
    using perm by blast
  ultimately show ?thesis using D(1) by blast
qed

theorem add_use_bounds_union_witness:
  "dimensions (storage_buffer TensorStorage_default) = 0 \<and>
   add_uses TensorStorage_default
     [(\<lparr>code = 0, bits = 32, lanes = 1\<rparr>, [\<lparr>interval_min = - 2, interval_max = 7\<rparr>]),
      (\<lparr>code = 0, bits = 32, lanes = 1\<rparr>, [\<lparr>interval_min = 0, interval_max = 9\<rparr>])]
   = Inr \<lparr>storage_buffer = \<lparr>buf_type = \<lparr>code = 0, bits = 32, lanes = 1\<rparr>,
           buf_dim = [\<lparr>dim_min = - 2, dim_extent = 12\<rparr>], buf_data = None\<rparr>\<rparr> \<and>
   dim_max \<lparr>dim_min = - 2, dim_extent = 12\<rparr> = 9 \<and>
   add_uses TensorStorage_default
     [(\<lparr>code = 0, bits = 32, lanes = 1\<rparr>, [\<lparr>interval_min = 0, interval_max = 9\<rparr>]),
      (\<lparr>code = 0, bits = 32, lanes = 1\<rparr>, [\<lparr>interval_min = - 2, interval_max = 7\<rparr>])]
   = Inr \<lparr>storage_buffer = \<lparr>buf_type = \<lparr>code = 0, bits = 32, lanes = 1\<rparr>,
           buf_dim = [\<lparr>dim_min = - 2, dim_extent = 12\<rparr>], buf_data = None\<rparr>\<rparr>"
proof -
  let ?ty = "\<lparr>code = 0, bits = 32, lanes = 1\<rparr> :: halide_type_t"
  let ?us = "[(?ty, [\<lparr>interval_min = - 2, interval_max = 7\<rparr>]),
      (?ty, [\<lparr>interval_min = 0, interval_max = 9\<rparr>])]"
  let ?us' = "[(?ty, [\<lparr>interval_min = 0, interval_max = 9\<rparr>]),
      (?ty, [\<lparr>interval_min = - 2, interval_max = 7\<rparr>])]"
  have fresh: "dimensions (storage_buffer TensorStorage_default) = 0"
    by (simp add: TensorStorage_default_def HalideBuffer_default_def dimensions_def)
  have ne: "?us \<noteq> []" by simp
  have m: "\<forall>u\<in>set ?us. fst u = ?ty \<and> length (snd u) = 1" by simp
  have run: "add_uses TensorStorage_default ?us
    = Inr \<lparr>storage_buffer = \<lparr>buf_type = ?ty,
           buf_dim = [\<lparr>dim_min = - 2, dim_extent = 12\<rparr>], buf_data = None\<rparr>\<rparr>"
    by (simp add: TensorStorage_default_def HalideBuffer_default_def dimensions_def add_use_def
        make_buffer_def HalideBuffer_of_shape_def translate_def Interval_extent_def
        add_use_dim_def dim_max_def std_min_def std_max_def Let_def)
  have p: "mset ?us' = mset ?us" by simp
  obtain s' where s': "add_uses TensorStorage_default ?us = Inr s'"
      "\<forall>us'. mset us' = mset ?us \<longrightarrow> add_uses TensorStorage_default us' = Inr s'"
    using add_use_bounds_union [OF fresh ne m] by blast
  from s'(2) p have "add_uses TensorStorage_default ?us' = Inr s'" by blast
  with s'(1) have "add_uses TensorStorage_default ?us' = add_uses TensorStorage_default ?us"
    by simp
  then show ?thesis using fresh run by (simp only: dim_max_def) simp
qed

text \<open>The same for a storage seeded with a buffer, as \<^verbatim>\<open>Tensor::storage()\<close> makes it: the
  seed counts as one more use.\<close>

lemma add_uses_seeded:
  assumes ty: "buf_type (storage_buffer s) = ty" and un: "buf_data (storage_buffer s) = None"
    and n: "length (buf_dim (storage_buffer s)) = n"
    and matching: "\<forall>u\<in>set us. fst u = ty \<and> length (snd u) = n"
  shows "\<exists>s'. add_uses s us = Inr s' \<and> buf_type (storage_buffer s') = ty \<and>
     length (buf_dim (storage_buffer s')) = n \<and>
     (\<forall>i<n. sint (dim_min (buf_dim (storage_buffer s') ! i))
               = Min (insert (sint (dim_min (buf_dim (storage_buffer s) ! i)))
                       ((\<lambda>u. sint (interval_min (snd u ! i))) ` set us)) \<and>
            sint (dim_max (buf_dim (storage_buffer s') ! i))
               = Max (insert (sint (dim_max (buf_dim (storage_buffer s) ! i)))
                       ((\<lambda>u. sint (interval_max (snd u ! i))) ` set us)))"
proof -
  let ?E = "buf_dim (storage_buffer s)"
  let ?D = "foldl (map2 union_dim) ?E (map snd us)"
  have run: "add_uses s us = Inr (s\<lparr>storage_buffer := \<lparr>buf_type = ty, buf_dim = ?D, buf_data = None\<rparr>\<rparr>)"
    using add_uses_union [OF matching ty un n] .
  have boxes: "\<forall>b\<in>set (map snd us). length b = length ?E" using matching n by simp
  have len: "length ?D = n" using foldl_map2_length [OF boxes] n by simp
  have dims: "sint (dim_min (?D ! i))
               = Min (insert (sint (dim_min (?E ! i))) ((\<lambda>u. sint (interval_min (snd u ! i))) ` set us)) \<and>
            sint (dim_max (?D ! i))
               = Max (insert (sint (dim_max (?E ! i))) ((\<lambda>u. sint (interval_max (snd u ! i))) ` set us))"
    if "i < n" for i
  proof -
    have i: "i < length ?E" using that n by simp
    have nth: "?D ! i = foldl union_dim (?E ! i) (map (\<lambda>b. b ! i) (map snd us))"
      using foldl_map2_nth [OF boxes i] by simp
    show ?thesis by (simp add: nth foldl_union_min foldl_union_max image_image)
  qed
  show ?thesis using run len dims
    by (intro exI [of _ "s\<lparr>storage_buffer := \<lparr>buf_type = ty, buf_dim = ?D, buf_data = None\<rparr>\<rparr>"]) simp
qed

subsection \<open>The contract of add_use (C7)\<close>

text \<open>On a storage whose buffer has at least one dimension the assertions of \<^verbatim>\<open>add_use\<close>
  enforce the contract: a type or a rank other than the buffer's, or an allocated storage,
  fails an assertion; the buffer's type and rank, before allocation, succeed.\<close>

lemma add_use_asserts:
  "(dimensions (storage_buffer s) \<noteq> 0 \<and>
      (buf_type (storage_buffer s) \<noteq> ty \<or> dimensions (storage_buffer s) \<noteq> length bounds \<or>
       TensorStorage_is_allocated s)
      \<longrightarrow> add_use s ty bounds = Inl AssertionFailed) \<and>
   (dimensions (storage_buffer s) \<noteq> 0 \<and> buf_type (storage_buffer s) = ty \<and>
      dimensions (storage_buffer s) = length bounds \<and> \<not> TensorStorage_is_allocated s
      \<longrightarrow> (\<exists>s'. add_use s ty bounds = Inr s'))"
  by (simp add: add_use_def TensorStorage_is_allocated_def)

text \<open>C7. The code misses the contract on a storage of rank 0, because \<^verbatim>\<open>add_use\<close> takes a
  buffer without dimensions for a storage that was never used and skips its three assertions.
  A storage receives a first use of a 32-bit integer type and rank 0; the second call, with a
  floating-point type and rank 1, does not fail: it returns and replaces type and rank. A
  storage of rank 0 is allocated; \<^verbatim>\<open>add_use\<close> after the allocation does not fail either: it
  returns and puts an unallocated buffer in place of the allocated one. The claim asks for a
  failed assertion in both cases.\<close>

theorem add_use_rank0_bypass:
  "add_use TensorStorage_default \<lparr>code = 0, bits = 32, lanes = 1\<rparr> []
     = Inr \<lparr>storage_buffer = \<lparr>buf_type = \<lparr>code = 0, bits = 32, lanes = 1\<rparr>, buf_dim = [],
                                 buf_data = None\<rparr>\<rparr> \<and>
   add_use \<lparr>storage_buffer = \<lparr>buf_type = \<lparr>code = 0, bits = 32, lanes = 1\<rparr>, buf_dim = [],
                                buf_data = None\<rparr>\<rparr>
       \<lparr>code = 2, bits = 32, lanes = 1\<rparr> [\<lparr>interval_min = 0, interval_max = 3\<rparr>]
     = Inr \<lparr>storage_buffer = \<lparr>buf_type = \<lparr>code = 2, bits = 32, lanes = 1\<rparr>,
                                 buf_dim = [\<lparr>dim_min = 0, dim_extent = 4\<rparr>], buf_data = None\<rparr>\<rparr> \<and>
   TensorStorage_is_allocated (TensorStorage_allocate 0 TensorStorage_default) \<and>
   add_use (TensorStorage_allocate 0 TensorStorage_default)
       \<lparr>code = 0, bits = 32, lanes = 1\<rparr> [\<lparr>interval_min = 0, interval_max = 3\<rparr>]
     = Inr \<lparr>storage_buffer = \<lparr>buf_type = \<lparr>code = 0, bits = 32, lanes = 1\<rparr>,
                                 buf_dim = [\<lparr>dim_min = 0, dim_extent = 4\<rparr>], buf_data = None\<rparr>\<rparr>"
  by (simp add: TensorStorage_default_def HalideBuffer_default_def dimensions_def add_use_def
      make_buffer_def HalideBuffer_of_shape_def translate_def Interval_extent_def Let_def
      TensorStorage_allocate_def make_with_shape_of_def TensorStorage_is_allocated_def)

subsection \<open>Allocation (C8) and the storage of an allocated tensor (C10)\<close>

lemma TensorStorage_allocate_twice:
  "TensorStorage_allocate q (TensorStorage_allocate p s) = TensorStorage_allocate p s"
  by (simp add: TensorStorage_allocate_def make_with_shape_of_def)

lemma TensorStorage_allocate_shape:
  "buf_type (storage_buffer (TensorStorage_allocate p s)) = buf_type (storage_buffer s) \<and>
   buf_dim (storage_buffer (TensorStorage_allocate p s)) = buf_dim (storage_buffer s) \<and>
   TensorStorage_is_allocated (TensorStorage_allocate p s)"
  by (simp add: TensorStorage_allocate_def make_with_shape_of_def TensorStorage_is_allocated_def)

lemma storage_allocate_ok:
  assumes "s < length (storage_objs h)"
  shows "\<exists>h1. storage_allocate h s = Inr h1 \<and> storage_allocate h1 s = Inr h1 \<and>
     length (storage_objs h1) = length (storage_objs h) \<and>
     TensorStorage_is_allocated (storage_objs h1 ! s) \<and>
     buf_type (storage_buffer (storage_objs h1 ! s)) = buf_type (storage_buffer (storage_objs h ! s)) \<and>
     buf_dim (storage_buffer (storage_objs h1 ! s)) = buf_dim (storage_buffer (storage_objs h ! s)) \<and>
     (\<forall>r. r \<noteq> s \<longrightarrow> storage_objs h1 ! r = storage_objs h ! r) \<and>
     tensor_objs h1 = tensor_objs h"
  using assms TensorStorage_allocate_shape [of "next_data h" "storage_objs h ! s"]
  by (simp add: storage_allocate_def)

text \<open>C8. Allocation is idempotent. For a storage: a second \<^verbatim>\<open>allocate()\<close> leaves what the
  first one made (same shape, same data), and the first one keeps the type and every
  dimension of the buffer and gives it data; the same holds through the shared pointer in the
  heap. For a tensor that is already allocated \<^verbatim>\<open>Tensor::allocate()\<close> returns at once and
  the heap is unchanged; a tensor constructed from a populated buffer is allocated and constant
  from the start, and allocating it changes nothing.\<close>

theorem allocate_idempotent:
  "TensorStorage_allocate q (TensorStorage_allocate p s) = TensorStorage_allocate p s \<and>
   buf_type (storage_buffer (TensorStorage_allocate p s)) = buf_type (storage_buffer s) \<and>
   buf_dim (storage_buffer (TensorStorage_allocate p s)) = buf_dim (storage_buffer s) \<and>
   TensorStorage_is_allocated (TensorStorage_allocate p s) \<and>
   (r < length (storage_objs h) \<longrightarrow>
      (\<exists>h1. storage_allocate h r = Inr h1 \<and> storage_allocate h1 r = Inr h1)) \<and>
   (t < length (tensor_objs h) \<and> Tensor_is_allocated (tensor_objs h ! t) \<longrightarrow>
      Tensor_allocate h t = Inr h) \<and>
   (buf_data buffer \<noteq> None \<longrightarrow>
      Tensor_is_allocated (Tensor_ctor name buffer quantization) \<and>
      tensor_is_constant (Tensor_ctor name buffer quantization) \<and>
      Tensor_allocate (h\<lparr>tensor_objs := tensor_objs h @ [Tensor_ctor name buffer quantization]\<rparr>)
          (length (tensor_objs h))
        = Inr (h\<lparr>tensor_objs := tensor_objs h @ [Tensor_ctor name buffer quantization]\<rparr>))"
proof -
  have 1: "r < length (storage_objs h) \<longrightarrow>
      (\<exists>h1. storage_allocate h r = Inr h1 \<and> storage_allocate h1 r = Inr h1)"
    using storage_allocate_ok [of r h] by blast
  have 2: "t < length (tensor_objs h) \<and> Tensor_is_allocated (tensor_objs h ! t) \<longrightarrow>
      Tensor_allocate h t = Inr h"
    by (simp add: Tensor_allocate_def Tensor_is_allocated_def)
  have 3: "buf_data buffer \<noteq> None \<longrightarrow>
      Tensor_is_allocated (Tensor_ctor name buffer quantization) \<and>
      tensor_is_constant (Tensor_ctor name buffer quantization) \<and>
      Tensor_allocate (h\<lparr>tensor_objs := tensor_objs h @ [Tensor_ctor name buffer quantization]\<rparr>)
          (length (tensor_objs h))
        = Inr (h\<lparr>tensor_objs := tensor_objs h @ [Tensor_ctor name buffer quantization]\<rparr>)"
    by (simp add: Tensor_allocate_def Tensor_is_allocated_def Tensor_ctor_def)
  show ?thesis
    using 1 2 3 TensorStorage_allocate_twice [of q p s] TensorStorage_allocate_shape [of p s]
    by blast
qed

theorem allocate_idempotent_witness:
  "(0::nat) < length (storage_objs (heap_empty\<lparr>storage_objs := [TensorStorage_default]\<rparr> :: unit heap)) \<and>
   (\<exists>h1. storage_allocate (heap_empty\<lparr>storage_objs := [TensorStorage_default]\<rparr> :: unit heap) 0 = Inr h1 \<and>
         storage_allocate h1 0 = Inr h1) \<and>
   buf_data \<lparr>buf_type = \<lparr>code = 1, bits = 8, lanes = 1\<rparr>,
             buf_dim = [\<lparr>dim_min = 0, dim_extent = 4\<rparr>], buf_data = Some 7\<rparr> \<noteq> None \<and>
   Tensor_is_allocated (Tensor_ctor ''w''
      \<lparr>buf_type = \<lparr>code = 1, bits = 8, lanes = 1\<rparr>,
       buf_dim = [\<lparr>dim_min = 0, dim_extent = 4\<rparr>], buf_data = Some 7\<rparr> ()) \<and>
   tensor_is_constant (Tensor_ctor ''w''
      \<lparr>buf_type = \<lparr>code = 1, bits = 8, lanes = 1\<rparr>,
       buf_dim = [\<lparr>dim_min = 0, dim_extent = 4\<rparr>], buf_data = Some 7\<rparr> ()) \<and>
   Tensor_allocate (heap_empty\<lparr>tensor_objs := [Tensor_ctor ''w''
      \<lparr>buf_type = \<lparr>code = 1, bits = 8, lanes = 1\<rparr>,
       buf_dim = [\<lparr>dim_min = 0, dim_extent = 4\<rparr>], buf_data = Some 7\<rparr> ()]\<rparr>) 0
     = Inr (heap_empty\<lparr>tensor_objs := [Tensor_ctor ''w''
      \<lparr>buf_type = \<lparr>code = 1, bits = 8, lanes = 1\<rparr>,
       buf_dim = [\<lparr>dim_min = 0, dim_extent = 4\<rparr>], buf_data = Some 7\<rparr> ()]\<rparr>)"
proof -
  let ?b = "\<lparr>buf_type = \<lparr>code = 1, bits = 8, lanes = 1\<rparr>,
       buf_dim = [\<lparr>dim_min = 0, dim_extent = 4\<rparr>], buf_data = Some 7\<rparr>"
  let ?h = "heap_empty\<lparr>storage_objs := [TensorStorage_default]\<rparr> :: unit heap"
  have a: "(0::nat) < length (storage_objs ?h)" by simp
  have b: "buf_data ?b \<noteq> None" by simp
  have c: "(0::nat) < length (tensor_objs (heap_empty\<lparr>tensor_objs := [Tensor_ctor ''w'' ?b ()]\<rparr> :: unit heap)) \<and>
      Tensor_is_allocated (tensor_objs (heap_empty\<lparr>tensor_objs := [Tensor_ctor ''w'' ?b ()]\<rparr> :: unit heap) ! 0)"
    by (simp add: Tensor_is_allocated_def Tensor_ctor_def)
  show ?thesis
    using a b c
      allocate_idempotent [of 0 0 TensorStorage_default 0 ?h 0 ?b "''w''" "()"]
      allocate_idempotent [of 0 0 TensorStorage_default 0
         "heap_empty\<lparr>tensor_objs := [Tensor_ctor ''w'' ?b ()]\<rparr> :: unit heap" 0 ?b "''w''" "()"]
    by simp
qed

text \<open>C10. For a tensor with no storage bound yet: when its buffer already holds data, the
  constructor of \<^verbatim>\<open>TensorStorage\<close> fails its assertion, so the first call of
  \<^verbatim>\<open>storage()\<close> fails, and so does \<^verbatim>\<open>set_alias_of\<close> of any tensor to it; when the
  tensor is unallocated, \<^verbatim>\<open>storage()\<close> makes a new storage seeded with the tensor's own
  buffer and binds it.\<close>

theorem storage_of_allocated_tensor_fails:
  assumes "t < length (tensor_objs h)"
    and "tensor_storage (tensor_objs h ! t) = None"
  shows "(Tensor_is_allocated (tensor_objs h ! t) \<longrightarrow>
            TensorStorage_ctor (tensor_buffer (tensor_objs h ! t)) = Inl AssertionFailed \<and>
            Tensor_storage h t = Inl AssertionFailed \<and>
            Tensor_set_alias_of h a t = Inl AssertionFailed) \<and>
         (\<not> Tensor_is_allocated (tensor_objs h ! t) \<longrightarrow>
            (\<exists>h' s. Tensor_storage h t = Inr (h', s) \<and>
               tensor_storage (tensor_objs h' ! t) = Some s \<and>
               s = length (storage_objs h) \<and>
               storage_objs h' = storage_objs h @ [\<lparr>storage_buffer = tensor_buffer (tensor_objs h ! t)\<rparr>]))"
  using assms
  by (simp add: Tensor_storage_def Tensor_set_alias_of_def TensorStorage_ctor_def
      Tensor_is_allocated_def)

theorem storage_of_allocated_tensor_fails_witness:
  "Tensor_storage (heap_empty\<lparr>tensor_objs := [Tensor_ctor ''w''
      \<lparr>buf_type = \<lparr>code = 1, bits = 8, lanes = 1\<rparr>,
       buf_dim = [\<lparr>dim_min = 0, dim_extent = 4\<rparr>], buf_data = Some 7\<rparr> (),
      Tensor_ctor_bounds ''x'' \<lparr>code = 1, bits = 8, lanes = 1\<rparr>
        [\<lparr>interval_min = 0, interval_max = 3\<rparr>] ()]\<rparr>) 0 = Inl AssertionFailed \<and>
   Tensor_set_alias_of (heap_empty\<lparr>tensor_objs := [Tensor_ctor ''w''
      \<lparr>buf_type = \<lparr>code = 1, bits = 8, lanes = 1\<rparr>,
       buf_dim = [\<lparr>dim_min = 0, dim_extent = 4\<rparr>], buf_data = Some 7\<rparr> (),
      Tensor_ctor_bounds ''x'' \<lparr>code = 1, bits = 8, lanes = 1\<rparr>
        [\<lparr>interval_min = 0, interval_max = 3\<rparr>] ()]\<rparr>) 1 0 = Inl AssertionFailed \<and>
   (\<exists>h' s. Tensor_storage (heap_empty\<lparr>tensor_objs := [Tensor_ctor ''w''
      \<lparr>buf_type = \<lparr>code = 1, bits = 8, lanes = 1\<rparr>,
       buf_dim = [\<lparr>dim_min = 0, dim_extent = 4\<rparr>], buf_data = Some 7\<rparr> (),
      Tensor_ctor_bounds ''x'' \<lparr>code = 1, bits = 8, lanes = 1\<rparr>
        [\<lparr>interval_min = 0, interval_max = 3\<rparr>] ()]\<rparr>) 1 = Inr (h', s))"
proof -
  let ?W = "Tensor_ctor ''w''
      \<lparr>buf_type = \<lparr>code = 1, bits = 8, lanes = 1\<rparr>,
       buf_dim = [\<lparr>dim_min = 0, dim_extent = 4\<rparr>], buf_data = Some 7\<rparr> ()"
  let ?X = "Tensor_ctor_bounds ''x'' \<lparr>code = 1, bits = 8, lanes = 1\<rparr>
        [\<lparr>interval_min = 0, interval_max = 3\<rparr>] ()"
  let ?h = "heap_empty\<lparr>tensor_objs := [?W, ?X]\<rparr> :: unit heap"
  have w: "0 < length (tensor_objs ?h)" "tensor_storage (tensor_objs ?h ! 0) = None"
    "Tensor_is_allocated (tensor_objs ?h ! 0)"
    by (simp_all add: Tensor_ctor_def Tensor_is_allocated_def)
  have x: "1 < length (tensor_objs ?h)" "tensor_storage (tensor_objs ?h ! 1) = None"
    "\<not> Tensor_is_allocated (tensor_objs ?h ! 1)"
    by (simp_all add: Tensor_ctor_def Tensor_ctor_bounds_def Tensor_is_allocated_def
        make_buffer_def HalideBuffer_of_shape_def translate_def Let_def)
  show ?thesis
    using storage_of_allocated_tensor_fails [OF w(1,2), of 1] w(3)
      storage_of_allocated_tensor_fails [OF x(1,2), of 0] x(3)
    by blast
qed

subsection \<open>Insertion of ops and tensors (C2, C3, C9)\<close>

lemma insert_before_pos:
  "insert_before N b os = take (insert_pos N b os) os @ N # drop (insert_pos N b os) os"
  by (induction os) auto

lemma insert_pos_le: "insert_pos N b os \<le> length os"
  by (induction os) auto

lemma insert_pos_before:
  "q < insert_pos N b os \<Longrightarrow> op_addr (os ! q) \<noteq> b \<and> \<not> consumes_output_of (os ! q) N"
proof (induction os arbitrary: q)
  case Nil
  then show ?case by simp
next
  case (Cons i rest)
  then show ?case by (cases q) (auto split: if_splits)
qed

lemma insert_pos_at:
  "insert_pos N b os < length os \<Longrightarrow>
   op_addr (os ! insert_pos N b os) = b \<or> consumes_output_of (os ! insert_pos N b os) N"
  by (induction os) auto

lemma insert_pos_eqI:
  assumes "c \<le> length os"
    and "\<forall>q<c. op_addr (os ! q) \<noteq> b \<and> \<not> consumes_output_of (os ! q) N"
    and "c < length os \<longrightarrow> op_addr (os ! c) = b \<or> consumes_output_of (os ! c) N"
  shows "insert_pos N b os = c"
proof -
  let ?p = "insert_pos N b os"
  have "\<not> ?p < c"
  proof
    assume lt: "?p < c"
    then have "?p < length os" using assms(1) by simp
    from insert_pos_at [OF this] assms(2) lt show False by blast
  qed
  moreover have "\<not> c < ?p"
  proof
    assume lt: "c < ?p"
    then have "c < length os" using insert_pos_le [of N b os] by simp
    with assms(3) insert_pos_before [OF lt] show False by blast
  qed
  ultimately show ?thesis by simp
qed

text \<open>C2. \<^verbatim>\<open>insert(op, before)\<close> scans the op list from the front. If the op at position
  \<open>c\<close> consumes an output of the new op, and no earlier op is the anchor or such a consumer,
  the new op is placed immediately before it, whatever the anchor. If the op at position \<open>e\<close>
  is the anchor and no earlier op is the anchor or a consumer, the new op is placed
  immediately before it. If no op is the anchor or a consumer, the new op is appended. Only
  the first such op decides: the ops after it stay as they are. The tensor list is
  untouched.\<close>

theorem insert_op_placement:
  "(c < length (ops m) \<and> consumes_output_of (ops m ! c) N \<and>
      (\<forall>q<c. op_addr (ops m ! q) \<noteq> before \<and> \<not> consumes_output_of (ops m ! q) N)
      \<longrightarrow> ops (Model_insert_op m N before) = take c (ops m) @ N # drop c (ops m)) \<and>
   (e < length (ops m) \<and> op_addr (ops m ! e) = before \<and>
      (\<forall>q<e. op_addr (ops m ! q) \<noteq> before \<and> \<not> consumes_output_of (ops m ! q) N)
      \<longrightarrow> ops (Model_insert_op m N before) = take e (ops m) @ N # drop e (ops m)) \<and>
   ((\<forall>q<length (ops m). op_addr (ops m ! q) \<noteq> before \<and> \<not> consumes_output_of (ops m ! q) N)
      \<longrightarrow> ops (Model_insert_op m N before) = ops m @ [N]) \<and>
   tensors (Model_insert_op m N before) = tensors m"
proof -
  have run: "ops (Model_insert_op m N before)
      = take (insert_pos N before (ops m)) (ops m) @ N # drop (insert_pos N before (ops m)) (ops m)"
    by (simp add: Model_insert_op_def insert_before_pos)
  have 1: "insert_pos N before (ops m) = c"
    if "c < length (ops m)" "consumes_output_of (ops m ! c) N"
      "\<forall>q<c. op_addr (ops m ! q) \<noteq> before \<and> \<not> consumes_output_of (ops m ! q) N"
    using that by (intro insert_pos_eqI) simp_all
  have 2: "insert_pos N before (ops m) = e"
    if "e < length (ops m)" "op_addr (ops m ! e) = before"
      "\<forall>q<e. op_addr (ops m ! q) \<noteq> before \<and> \<not> consumes_output_of (ops m ! q) N"
    using that by (intro insert_pos_eqI) simp_all
  have 3: "insert_pos N before (ops m) = length (ops m)"
    if "\<forall>q<length (ops m). op_addr (ops m ! q) \<noteq> before \<and> \<not> consumes_output_of (ops m ! q) N"
    using that by (intro insert_pos_eqI) simp_all
  have t: "tensors (Model_insert_op m N before) = tensors m"
    by (simp add: Model_insert_op_def)
  show ?thesis using run 1 2 3 t by auto
qed

lemma topological_iff:
  "topological os \<longleftrightarrow>
     (\<forall>i<length os. \<forall>j<length os. consumes_output_of (os ! j) (os ! i) \<longrightarrow> i < j)"
  by (auto simp: topological_def list_all_iff)

lemma nth_inserted:
  assumes "p \<le> length os"
  shows "(take p os @ N # drop p os) ! k =
     (if k < p then os ! k else if k = p then N else os ! (k - 1))"
  using assms by (auto simp: nth_append nth_Cons' min_def)

lemma topological_insert_iff:
  assumes topo: "topological os"
  shows "topological (insert_before N b os) \<longleftrightarrow>
     \<not> consumes_output_of N N \<and>
     (\<forall>q. insert_pos N b os \<le> q \<and> q < length os \<longrightarrow> \<not> consumes_output_of N (os ! q))"
proof -
  let ?p = "insert_pos N b os"
  let ?L = "take ?p os @ N # drop ?p os"
  have p: "?p \<le> length os" by (rule insert_pos_le)
  have len: "length ?L = Suc (length os)" using p by simp
  have nth: "?L ! k = (if k < ?p then os ! k else if k = ?p then N else os ! (k - 1))" for k
    using p by (rule nth_inserted)
  have old: "\<And>i j. i < length os \<Longrightarrow> j < length os \<Longrightarrow> consumes_output_of (os ! j) (os ! i) \<Longrightarrow> i < j"
    using topo unfolding topological_iff by blast
  have Liff: "topological (insert_before N b os) \<longleftrightarrow>
      (\<forall>i<Suc (length os). \<forall>j<Suc (length os). consumes_output_of (?L ! j) (?L ! i) \<longrightarrow> i < j)"
    unfolding topological_iff insert_before_pos len ..
  have before: "\<And>q. q < ?p \<Longrightarrow> \<not> consumes_output_of (os ! q) N"
    using insert_pos_before by blast
  show ?thesis
  proof
    assume new: "topological (insert_before N b os)"
    then have L: "\<And>i j. i < Suc (length os) \<Longrightarrow> j < Suc (length os) \<Longrightarrow>
        consumes_output_of (?L ! j) (?L ! i) \<Longrightarrow> i < j"
      using Liff by blast
    have "\<not> consumes_output_of N N"
    proof
      assume "consumes_output_of N N"
      then have "consumes_output_of (?L ! ?p) (?L ! ?p)" by (simp add: nth)
      with L [of ?p ?p] p show False by simp
    qed
    moreover have "\<not> consumes_output_of N (os ! q)" if q: "?p \<le> q" "q < length os" for q
    proof
      assume "consumes_output_of N (os ! q)"
      then have "consumes_output_of (?L ! ?p) (?L ! Suc q)" using q by (simp add: nth)
      with L [of "Suc q" ?p] p q show False by simp
    qed
    ultimately show "\<not> consumes_output_of N N \<and>
       (\<forall>q. ?p \<le> q \<and> q < length os \<longrightarrow> \<not> consumes_output_of N (os ! q))" by blast
  next
    assume cond: "\<not> consumes_output_of N N \<and>
       (\<forall>q. ?p \<le> q \<and> q < length os \<longrightarrow> \<not> consumes_output_of N (os ! q))"
    have "i < j" if ij: "i < Suc (length os)" "j < Suc (length os)"
      and c: "consumes_output_of (?L ! j) (?L ! i)" for i j
    proof -
      consider "i < ?p" "j < ?p" | "i < ?p" "j = ?p" | "i < ?p" "?p < j"
        | "i = ?p" "j < ?p" | "i = ?p" "j = ?p" | "i = ?p" "?p < j"
        | "?p < i" "j < ?p" | "?p < i" "j = ?p" | "?p < i" "?p < j"
        by linarith
      then show ?thesis
      proof cases
        case 1
        then show ?thesis using c ij p old [of i j] by (simp add: nth)
      next
        case 2
        then show ?thesis by simp
      next
        case 3
        then show ?thesis by simp
      next
        case 4
        then show ?thesis using c before [of j] by (simp add: nth)
      next
        case 5
        then show ?thesis using c cond by (simp add: nth)
      next
        case 6
        then show ?thesis by simp
      next
        case 7
        then have c7: "consumes_output_of (os ! j) (os ! (i - 1))" using c by (simp add: nth)
        have "i - 1 < length os" "j < length os" using 7 ij p by simp_all
        from old [OF this c7] 7 show ?thesis by linarith
      next
        case 8
        then have "consumes_output_of N (os ! (i - 1))" using c by (simp add: nth)
        moreover have "?p \<le> i - 1" "i - 1 < length os" using 8 ij by simp_all
        ultimately show ?thesis using cond by blast
      next
        case 9
        then have c9: "consumes_output_of (os ! (j - 1)) (os ! (i - 1))" using c by (simp add: nth)
        have "i - 1 < length os" "j - 1 < length os" using 9 ij by simp_all
        from old [OF this c9] 9 show ?thesis by linarith
      qed
    qed
    then show "topological (insert_before N b os)"
      using Liff by blast
  qed
qed

text \<open>C3, as amended. On an op list that satisfies the topological invariant,
  \<^verbatim>\<open>insert(op, before)\<close> yields a list that satisfies it exactly when the new op consumes
  none of its own outputs and no output of an op at or after the position where it is placed:
  the scan checks the consumers of the new op's outputs, not the producers of its inputs.\<close>

theorem insert_op_topological:
  assumes "topological (ops m)"
  shows "topological (ops (Model_insert_op m N before)) \<longleftrightarrow>
     \<not> consumes_output_of N N \<and>
     (\<forall>q. insert_pos N before (ops m) \<le> q \<and> q < length (ops m)
          \<longrightarrow> \<not> consumes_output_of N (ops m ! q))"
  using topological_insert_iff [OF assms, of N before] by (simp add: Model_insert_op_def)

theorem insert_op_topological_witness:
  "topological (ops \<lparr>tensors = [10, 11, 12],
       ops = [\<lparr>op_addr = 1, op_inputs = [], op_outputs = [10]\<rparr>,
              \<lparr>op_addr = 2, op_inputs = [10], op_outputs = [12]\<rparr>]\<rparr>) \<and>
   topological (ops (Model_insert_op \<lparr>tensors = [10, 11, 12],
       ops = [\<lparr>op_addr = 1, op_inputs = [], op_outputs = [10]\<rparr>,
              \<lparr>op_addr = 2, op_inputs = [10], op_outputs = [12]\<rparr>]\<rparr>
       \<lparr>op_addr = 3, op_inputs = [10], op_outputs = [11]\<rparr> 2))"
proof -
  let ?P = "\<lparr>op_addr = 1, op_inputs = [], op_outputs = [10]\<rparr>"
  let ?C = "\<lparr>op_addr = 2, op_inputs = [10], op_outputs = [12]\<rparr>"
  let ?N = "\<lparr>op_addr = 3, op_inputs = [10], op_outputs = [11]\<rparr>"
  let ?m = "\<lparr>tensors = [10, 11, 12], ops = [?P, ?C]\<rparr>"
  have t: "topological (ops ?m)" by code_simp
  have pos: "insert_pos ?N 2 (ops ?m) = 1" by code_simp
  have n: "\<not> consumes_output_of ?N ?N" by code_simp
  have c: "\<not> consumes_output_of ?N ?C" by code_simp
  have "\<forall>q. insert_pos ?N 2 (ops ?m) \<le> q \<and> q < length (ops ?m)
          \<longrightarrow> \<not> consumes_output_of ?N (ops ?m ! q)"
  proof (intro allI impI)
    fix q assume "insert_pos ?N 2 (ops ?m) \<le> q \<and> q < length (ops ?m)"
    then have "q = 1" using pos by simp
    then show "\<not> consumes_output_of ?N (ops ?m ! q)" using c by simp
  qed
  with n insert_op_topological [OF t, of ?N 2] t show ?thesis by blast
qed

theorem insert_op_topological_counterexample:
  "topological (ops \<lparr>tensors = [10, 11],
       ops = [\<lparr>op_addr = 1, op_inputs = [], op_outputs = [10]\<rparr>]\<rparr>) \<and>
   ops (Model_insert_op \<lparr>tensors = [10, 11],
       ops = [\<lparr>op_addr = 1, op_inputs = [], op_outputs = [10]\<rparr>]\<rparr>
       \<lparr>op_addr = 2, op_inputs = [10], op_outputs = [11]\<rparr> 1)
     = [\<lparr>op_addr = 2, op_inputs = [10], op_outputs = [11]\<rparr>,
        \<lparr>op_addr = 1, op_inputs = [], op_outputs = [10]\<rparr>] \<and>
   \<not> topological (ops (Model_insert_op \<lparr>tensors = [10, 11],
       ops = [\<lparr>op_addr = 1, op_inputs = [], op_outputs = [10]\<rparr>]\<rparr>
       \<lparr>op_addr = 2, op_inputs = [10], op_outputs = [11]\<rparr> 1))"
  by code_simp

theorem insert_op_placement_witness:
  "ops (Model_insert_op \<lparr>tensors = [10, 11],
       ops = [\<lparr>op_addr = 1, op_inputs = [], op_outputs = [10]\<rparr>,
              \<lparr>op_addr = 2, op_inputs = [11], op_outputs = []\<rparr>,
              \<lparr>op_addr = 3, op_inputs = [10], op_outputs = []\<rparr>]\<rparr>
       \<lparr>op_addr = 4, op_inputs = [10], op_outputs = [11]\<rparr> 3)
     = [\<lparr>op_addr = 1, op_inputs = [], op_outputs = [10]\<rparr>,
        \<lparr>op_addr = 4, op_inputs = [10], op_outputs = [11]\<rparr>,
        \<lparr>op_addr = 2, op_inputs = [11], op_outputs = []\<rparr>,
        \<lparr>op_addr = 3, op_inputs = [10], op_outputs = []\<rparr>] \<and>
   ops (Model_insert_op \<lparr>tensors = [10, 11],
       ops = [\<lparr>op_addr = 1, op_inputs = [], op_outputs = [10]\<rparr>,
              \<lparr>op_addr = 3, op_inputs = [10], op_outputs = []\<rparr>]\<rparr>
       \<lparr>op_addr = 4, op_inputs = [10], op_outputs = [11]\<rparr> 3)
     = [\<lparr>op_addr = 1, op_inputs = [], op_outputs = [10]\<rparr>,
        \<lparr>op_addr = 4, op_inputs = [10], op_outputs = [11]\<rparr>,
        \<lparr>op_addr = 3, op_inputs = [10], op_outputs = []\<rparr>] \<and>
   ops (Model_insert_op \<lparr>tensors = [10, 11],
       ops = [\<lparr>op_addr = 1, op_inputs = [], op_outputs = [10]\<rparr>]\<rparr>
       \<lparr>op_addr = 4, op_inputs = [10], op_outputs = [11]\<rparr> 3)
     = [\<lparr>op_addr = 1, op_inputs = [], op_outputs = [10]\<rparr>,
        \<lparr>op_addr = 4, op_inputs = [10], op_outputs = [11]\<rparr>]"
proof -
  let ?P = "\<lparr>op_addr = 1, op_inputs = [], op_outputs = [10]\<rparr>"
  let ?C = "\<lparr>op_addr = 2, op_inputs = [11], op_outputs = []\<rparr>"
  let ?E = "\<lparr>op_addr = 3, op_inputs = [10], op_outputs = []\<rparr>"
  let ?N = "\<lparr>op_addr = 4, op_inputs = [10], op_outputs = [11]\<rparr>"
  let ?m1 = "\<lparr>tensors = [10, 11], ops = [?P, ?C, ?E]\<rparr>"
  let ?m2 = "\<lparr>tensors = [10, 11], ops = [?P, ?E]\<rparr>"
  let ?m3 = "\<lparr>tensors = [10, 11], ops = [?P]\<rparr>"
  have nP: "op_addr ?P \<noteq> 3 \<and> \<not> consumes_output_of ?P ?N" by code_simp
  have cC: "consumes_output_of ?C ?N" by code_simp
  have h1: "1 < length (ops ?m1) \<and> consumes_output_of (ops ?m1 ! 1) ?N \<and>
      (\<forall>q<1. op_addr (ops ?m1 ! q) \<noteq> 3 \<and> \<not> consumes_output_of (ops ?m1 ! q) ?N)"
    using nP cC by simp
  have h2: "1 < length (ops ?m2) \<and> op_addr (ops ?m2 ! 1) = 3 \<and>
      (\<forall>q<1. op_addr (ops ?m2 ! q) \<noteq> 3 \<and> \<not> consumes_output_of (ops ?m2 ! q) ?N)"
    using nP by simp
  have h3: "\<forall>q<length (ops ?m3). op_addr (ops ?m3 ! q) \<noteq> 3 \<and> \<not> consumes_output_of (ops ?m3 ! q) ?N"
    using nP by simp
  show ?thesis
    using insert_op_placement [of 1 ?m1 ?N 3 0] h1
      insert_op_placement [of 0 ?m2 ?N 3 1] h2
      insert_op_placement [of 0 ?m3 ?N 3 0] h3
    by simp
qed

lemma insert_after_absent: "after \<notin> set ts \<Longrightarrow> insert_after t after ts = ts @ [t]"
  by (induction ts) auto

lemma insert_after_present:
  "a < length ts \<Longrightarrow> ts ! a = after \<Longrightarrow> \<forall>q<a. ts ! q \<noteq> after \<Longrightarrow>
   insert_after t after ts = take (Suc a) ts @ t # drop (Suc a) ts"
proof (induction ts arbitrary: a)
  case Nil
  then show ?case by simp
next
  case (Cons i rest)
  show ?case
  proof (cases a)
    case 0
    then show ?thesis using Cons.prems by simp
  next
    case (Suc a')
    have "i \<noteq> after" using Cons.prems(3) Suc by auto
    moreover have "insert_after t after rest = take (Suc a') rest @ t # drop (Suc a') rest"
      using Cons.prems Suc by (intro Cons.IH) auto
    ultimately show ?thesis using Suc by simp
  qed
qed

lemma insert_after_some_pos:
  "\<exists>p\<le>length ts. insert_after t after ts = take p ts @ t # drop p ts"
proof (induction ts)
  case Nil
  then show ?case by simp
next
  case (Cons i rest)
  show ?case
  proof (cases "i = after")
    case True
    then have "insert_after t after (i # rest) = take 1 (i # rest) @ t # drop 1 (i # rest)" by simp
    then show ?thesis by (intro exI [of _ 1]) simp
  next
    case False
    from Cons.IH obtain p where p: "p \<le> length rest"
      "insert_after t after rest = take p rest @ t # drop p rest" by blast
    then have "insert_after t after (i # rest) = take (Suc p) (i # rest) @ t # drop (Suc p) (i # rest)"
      using False by simp
    then show ?thesis using p(1) by (intro exI [of _ "Suc p"]) simp
  qed
qed

text \<open>C9. \<^verbatim>\<open>insert(tensor, after)\<close> places the new tensor immediately after the first
  occurrence of the anchor, and appends it when the anchor is absent. Neither insert has a
  failing branch: each returns the old list with the new element put in at one position, so
  nothing is removed or reordered; the tensor insert reads nothing but the tensor list (no
  dependency check) and leaves the ops alone; the op insert appends when its scan finds neither
  the anchor nor a consumer of the new op's outputs.\<close>

theorem insert_tensor_placement:
  "(a < length (tensors m) \<and> tensors m ! a = after \<and> (\<forall>q<a. tensors m ! q \<noteq> after)
      \<longrightarrow> tensors (Model_insert_tensor m t after)
            = take (Suc a) (tensors m) @ t # drop (Suc a) (tensors m)) \<and>
   (after \<notin> set (tensors m) \<longrightarrow> tensors (Model_insert_tensor m t after) = tensors m @ [t]) \<and>
   (\<exists>p\<le>length (tensors m).
      tensors (Model_insert_tensor m t after) = take p (tensors m) @ t # drop p (tensors m)) \<and>
   ops (Model_insert_tensor m t after) = ops m \<and>
   (\<exists>p\<le>length (ops m).
      ops (Model_insert_op m N before) = take p (ops m) @ N # drop p (ops m)) \<and>
   (before \<notin> op_addr ` set (ops m) \<and> (\<forall>i\<in>set (ops m). \<not> consumes_output_of i N)
      \<longrightarrow> ops (Model_insert_op m N before) = ops m @ [N])"
proof -
  have 1: "a < length (tensors m) \<and> tensors m ! a = after \<and> (\<forall>q<a. tensors m ! q \<noteq> after)
      \<longrightarrow> tensors (Model_insert_tensor m t after)
            = take (Suc a) (tensors m) @ t # drop (Suc a) (tensors m)"
    by (simp add: Model_insert_tensor_def insert_after_present)
  have 2: "after \<notin> set (tensors m) \<longrightarrow> tensors (Model_insert_tensor m t after) = tensors m @ [t]"
    by (simp add: Model_insert_tensor_def insert_after_absent)
  have 3: "\<exists>p\<le>length (tensors m).
      tensors (Model_insert_tensor m t after) = take p (tensors m) @ t # drop p (tensors m)"
    using insert_after_some_pos [of "tensors m" t after] by (simp add: Model_insert_tensor_def)
  have 4: "ops (Model_insert_tensor m t after) = ops m"
    by (simp add: Model_insert_tensor_def)
  have 5: "\<exists>p\<le>length (ops m).
      ops (Model_insert_op m N before) = take p (ops m) @ N # drop p (ops m)"
    using insert_pos_le [of N before "ops m"] insert_before_pos [of N before "ops m"]
    by (auto simp: Model_insert_op_def)
  have 6: "before \<notin> op_addr ` set (ops m) \<and> (\<forall>i\<in>set (ops m). \<not> consumes_output_of i N)
      \<longrightarrow> ops (Model_insert_op m N before) = ops m @ [N]"
  proof
    assume h: "before \<notin> op_addr ` set (ops m) \<and> (\<forall>i\<in>set (ops m). \<not> consumes_output_of i N)"
    have "insert_pos N before (ops m) = length (ops m)"
      using h by (intro insert_pos_eqI) auto
    then show "ops (Model_insert_op m N before) = ops m @ [N]"
      by (simp add: Model_insert_op_def insert_before_pos)
  qed
  show ?thesis using 1 2 3 4 5 6 by blast
qed

theorem insert_tensor_placement_witness:
  "tensors (Model_insert_tensor \<lparr>tensors = [10, 11, 12], ops = []\<rparr> 20 11) = [10, 11, 20, 12] \<and>
   tensors (Model_insert_tensor \<lparr>tensors = [10, 11, 12], ops = []\<rparr> 20 99) = [10, 11, 12, 20] \<and>
   ops (Model_insert_op \<lparr>tensors = [10, 11, 12],
          ops = [\<lparr>op_addr = 1, op_inputs = [10], op_outputs = [11]\<rparr>]\<rparr>
          \<lparr>op_addr = 2, op_inputs = [11], op_outputs = [12]\<rparr> 99)
     = [\<lparr>op_addr = 1, op_inputs = [10], op_outputs = [11]\<rparr>,
        \<lparr>op_addr = 2, op_inputs = [11], op_outputs = [12]\<rparr>]"
proof -
  let ?m = "\<lparr>tensors = [10, 11, 12], ops = []\<rparr>"
  let ?P = "\<lparr>op_addr = 1, op_inputs = [10], op_outputs = [11]\<rparr>"
  let ?N = "\<lparr>op_addr = 2, op_inputs = [11], op_outputs = [12]\<rparr>"
  let ?m2 = "\<lparr>tensors = [10, 11, 12], ops = [?P]\<rparr>"
  have h1: "1 < length (tensors ?m) \<and> tensors ?m ! 1 = 11 \<and> (\<forall>q<1. tensors ?m ! q \<noteq> 11)"
    by simp
  have h2: "99 \<notin> set (tensors ?m)" by simp
  have nc: "\<not> consumes_output_of ?P ?N" by code_simp
  have h3: "99 \<notin> op_addr ` set (ops ?m2) \<and> (\<forall>i\<in>set (ops ?m2). \<not> consumes_output_of i ?N)"
    using nc by simp
  show ?thesis
    using insert_tensor_placement [of 1 ?m 11 20 ?N 99] h1
      insert_tensor_placement [of 0 ?m 99 20 ?N 99] h2
      insert_tensor_placement [of 0 ?m2 99 20 ?N 99] h3
    by simp
qed

subsection \<open>Tensor::allocate (C6)\<close>

lemmas example_defs = example_alias_heap_def example_aliased_heap_def example_narrow_heap_def
  example_model_heap_def example_model_def i32_def heap_empty_def
  example_scalar_heap_def example_scalar_aliased_heap_def example_low_rank_heap_def f32_def
  example_unallocated_scalar_heap_def example_allocated_scalar_heap_def
  Tensor_ctor_bounds_def Tensor_ctor_def make_buffer_eq dim_of_interval_def Interval_extent_def

lemma covers_Tensor_box:
  "covers b (Tensor_box T) \<longleftrightarrow>
     length (buf_dim (tensor_buffer T)) \<le> length (buf_dim b) \<and>
     (\<forall>i<length (buf_dim (tensor_buffer T)). dim_within (buf_dim (tensor_buffer T) ! i) (buf_dim b ! i))"
  by (auto simp: covers_def Tensor_box_def dim_within_def list_all_iff)

lemma dim_eta: "\<lparr>dim_min = dim_min d, dim_extent = dim_extent d\<rparr> = (d :: halide_dimension_t)"
  by (cases d) simp

lemma crop_own:
  "crop b i (dim_min d) (dim_extent d) = b\<lparr>buf_dim := (buf_dim b)[i := (d :: halide_dimension_t)]\<rparr>"
  by (simp add: crop_def dim_eta)

lemma allocate_crop_step:
  "i < length (buf_dim own) \<Longrightarrow> dim_within (buf_dim own ! i) (buf_dim b ! i) \<Longrightarrow>
   allocate_crop own (i # is) b = allocate_crop own is (b\<lparr>buf_dim := (buf_dim b)[i := buf_dim own ! i]\<rparr>)"
  by (simp add: dim_within_def crop_own)

lemma allocate_crop_ok:
  "distinct is \<Longrightarrow>
   \<forall>i\<in>set is. i < length (buf_dim own) \<and> i < length (buf_dim b) \<and>
      dim_within (buf_dim own ! i) (buf_dim b ! i) \<Longrightarrow>
   allocate_crop own is b =
     Inr (b\<lparr>buf_dim := map (\<lambda>i. if i \<in> set is then buf_dim own ! i else buf_dim b ! i)
                          [0..<length (buf_dim b)]\<rparr>)"
proof (induction "is" arbitrary: b)
  case Nil
  then show ?case by (simp add: map_nth)
next
  case (Cons i "is")
  let ?b = "b\<lparr>buf_dim := (buf_dim b)[i := buf_dim own ! i]\<rparr>"
  have step: "allocate_crop own (i # is) b = allocate_crop own is ?b"
    using Cons.prems by (intro allocate_crop_step) simp_all
  have "allocate_crop own is ?b =
     Inr (?b\<lparr>buf_dim := map (\<lambda>k. if k \<in> set is then buf_dim own ! k else buf_dim ?b ! k)
                          [0..<length (buf_dim ?b)]\<rparr>)"
    using Cons.prems by (intro Cons.IH) (auto simp: nth_list_update)
  moreover have "map (\<lambda>k. if k \<in> set is then buf_dim own ! k else buf_dim ?b ! k)
                          [0..<length (buf_dim ?b)]
      = map (\<lambda>k. if k \<in> set (i # is) then buf_dim own ! k else buf_dim b ! k)
                          [0..<length (buf_dim b)]"
    by (rule nth_equalityI) (auto simp: nth_list_update)
  ultimately show ?case using step by simp
qed

lemma allocate_crop_assert:
  "distinct is \<Longrightarrow>
   \<forall>i\<in>set is. i < length (buf_dim own) \<and> i < length (buf_dim b) \<Longrightarrow>
   \<exists>i\<in>set is. \<not> dim_within (buf_dim own ! i) (buf_dim b ! i) \<Longrightarrow>
   allocate_crop own is b = Inl AssertionFailed"
proof (induction "is" arbitrary: b)
  case Nil
  then show ?case by simp
next
  case (Cons i "is")
  show ?case
  proof (cases "dim_within (buf_dim own ! i) (buf_dim b ! i)")
    case False
    then show ?thesis using Cons.prems by (auto simp: dim_within_def)
  next
    case True
    let ?b = "b\<lparr>buf_dim := (buf_dim b)[i := buf_dim own ! i]\<rparr>"
    have step: "allocate_crop own (i # is) b = allocate_crop own is ?b"
      using Cons.prems True by (intro allocate_crop_step) simp_all
    have "allocate_crop own is ?b = Inl AssertionFailed"
      using Cons.prems True by (intro Cons.IH) (auto simp: nth_list_update)
    then show ?thesis using step by simp
  qed
qed

lemma allocate_crop_fail:
  "distinct is \<Longrightarrow>
   \<forall>i\<in>set is. i < length (buf_dim b) \<Longrightarrow>
   \<exists>i\<in>set is. \<not> (i < length (buf_dim own) \<and> dim_within (buf_dim own ! i) (buf_dim b ! i)) \<Longrightarrow>
   \<exists>e. allocate_crop own is b = Inl e"
proof (induction "is" arbitrary: b)
  case Nil
  then show ?case by simp
next
  case (Cons i "is")
  show ?case
  proof (cases "i < length (buf_dim own) \<and> dim_within (buf_dim own ! i) (buf_dim b ! i)")
    case False
    then show ?thesis by (auto simp: dim_within_def)
  next
    case True
    let ?b = "b\<lparr>buf_dim := (buf_dim b)[i := buf_dim own ! i]\<rparr>"
    have step: "allocate_crop own (i # is) b = allocate_crop own is ?b"
      using True by (intro allocate_crop_step) simp_all
    have "\<exists>e. allocate_crop own is ?b = Inl e"
      using Cons.prems True by (intro Cons.IH) (auto simp: nth_list_update)
    then show ?thesis using step by simp
  qed
qed

lemma Tensor_storage_bound:
  "t < length (tensor_objs h) \<Longrightarrow> tensor_storage (tensor_objs h ! t) = Some s \<Longrightarrow>
   Tensor_storage h t = Inr (h, s)"
  by (simp add: Tensor_storage_def)

lemma Tensor_storage_new:
  "t < length (tensor_objs h) \<Longrightarrow> tensor_storage (tensor_objs h ! t) = None \<Longrightarrow>
   buf_data (tensor_buffer (tensor_objs h ! t)) = None \<Longrightarrow>
   Tensor_storage h t =
     Inr (h\<lparr>tensor_objs := (tensor_objs h)
               [t := (tensor_objs h ! t)\<lparr>tensor_storage := Some (length (storage_objs h))\<rparr>],
             storage_objs := storage_objs h @ [\<lparr>storage_buffer = tensor_buffer (tensor_objs h ! t)\<rparr>]\<rparr>,
          length (storage_objs h))"
  by (simp add: Tensor_storage_def TensorStorage_ctor_def)

lemma Tensor_allocate_bound:
  assumes t: "t < length (tensor_objs h)"
    and bound: "tensor_storage (tensor_objs h ! t) = Some s"
    and s: "s < length (storage_objs h)"
    and un: "buf_data (tensor_buffer (tensor_objs h ! t)) = None"
  shows "\<exists>h2. storage_allocate h s = Inr h2 \<and>
     tensor_objs h2 = tensor_objs h \<and> length (storage_objs h2) = length (storage_objs h) \<and>
     TensorStorage_is_allocated (storage_objs h2 ! s) \<and>
     buf_dim (storage_buffer (storage_objs h2 ! s)) = buf_dim (storage_buffer (storage_objs h ! s)) \<and>
     Tensor_allocate h t =
       (case allocate_crop (tensor_buffer (tensor_objs h ! t))
               [0..<length (buf_dim (storage_buffer (storage_objs h ! s)))]
               (storage_buffer (storage_objs h2 ! s)) of
          Inl e \<Rightarrow> Inl e
        | Inr buffer \<Rightarrow>
            Inr (h2\<lparr>tensor_objs := (tensor_objs h2)
                      [t := (tensor_objs h2 ! t)\<lparr>tensor_buffer := buffer\<rparr>]\<rparr>))"
proof -
  obtain h2 where h2: "storage_allocate h s = Inr h2"
      "length (storage_objs h2) = length (storage_objs h)"
      "TensorStorage_is_allocated (storage_objs h2 ! s)"
      "buf_dim (storage_buffer (storage_objs h2 ! s)) = buf_dim (storage_buffer (storage_objs h ! s))"
      "tensor_objs h2 = tensor_objs h"
    using storage_allocate_ok [OF s] by blast
  have st1: "Tensor_storage h t = Inr (h, s)" using t bound by (rule Tensor_storage_bound)
  have st2: "Tensor_storage h2 t = Inr (h2, s)"
    using t bound h2(5) by (intro Tensor_storage_bound) simp_all
  have "Tensor_allocate h t =
       (case allocate_crop (tensor_buffer (tensor_objs h ! t))
               [0..<length (buf_dim (storage_buffer (storage_objs h ! s)))]
               (storage_buffer (storage_objs h2 ! s)) of
          Inl e \<Rightarrow> Inl e
        | Inr buffer \<Rightarrow>
            Inr (h2\<lparr>tensor_objs := (tensor_objs h2)
                      [t := (tensor_objs h2 ! t)\<lparr>tensor_buffer := buffer\<rparr>]\<rparr>))"
    using t un s by (simp add: Tensor_allocate_def st1 st2 h2 dimensions_def)
  then show ?thesis using h2 by blast
qed

lemma Tensor_allocate_new:
  assumes t: "t < length (tensor_objs h)"
    and none: "tensor_storage (tensor_objs h ! t) = None"
    and un: "buf_data (tensor_buffer (tensor_objs h ! t)) = None"
  shows "Tensor_allocate h t =
     Tensor_allocate (h\<lparr>tensor_objs := (tensor_objs h)
               [t := (tensor_objs h ! t)\<lparr>tensor_storage := Some (length (storage_objs h))\<rparr>],
             storage_objs := storage_objs h @ [\<lparr>storage_buffer = tensor_buffer (tensor_objs h ! t)\<rparr>]\<rparr>) t"
proof -
  let ?h1 = "h\<lparr>tensor_objs := (tensor_objs h)
               [t := (tensor_objs h ! t)\<lparr>tensor_storage := Some (length (storage_objs h))\<rparr>],
             storage_objs := storage_objs h @ [\<lparr>storage_buffer = tensor_buffer (tensor_objs h ! t)\<rparr>]\<rparr>"
  have a: "Tensor_storage h t = Inr (?h1, length (storage_objs h))"
    using t none un by (rule Tensor_storage_new)
  have b: "Tensor_storage ?h1 t = Inr (?h1, length (storage_objs h))"
    using t by (intro Tensor_storage_bound) simp_all
  show ?thesis using t un
    by (simp add: Tensor_allocate_def [of h] Tensor_allocate_def [of ?h1] a b)
qed

lemma Tensor_allocate_bound_cases:
  assumes t: "t < length (tensor_objs h)"
    and bound: "tensor_storage (tensor_objs h ! t) = Some s"
    and s: "s < length (storage_objs h)"
    and un: "buf_data (tensor_buffer (tensor_objs h ! t)) = None"
  shows "(dimensions (storage_buffer (storage_objs h ! s)) = dimensions (tensor_buffer (tensor_objs h ! t)) \<and>
          covers (storage_buffer (storage_objs h ! s)) (Tensor_box (tensor_objs h ! t)) \<longrightarrow>
          (\<exists>h'. Tensor_allocate h t = Inr h' \<and>
             tensor_storage (tensor_objs h' ! t) = Some s \<and> s < length (storage_objs h') \<and>
             TensorStorage_is_allocated (storage_objs h' ! s) \<and>
             buf_dim (storage_buffer (storage_objs h' ! s)) = buf_dim (storage_buffer (storage_objs h ! s)) \<and>
             buf_dim (tensor_buffer (tensor_objs h' ! t)) = buf_dim (tensor_buffer (tensor_objs h ! t)) \<and>
             buf_data (tensor_buffer (tensor_objs h' ! t)) = buf_data (storage_buffer (storage_objs h' ! s)) \<and>
             Tensor_is_allocated (tensor_objs h' ! t))) \<and>
         (dimensions (storage_buffer (storage_objs h ! s)) = dimensions (tensor_buffer (tensor_objs h ! t)) \<and>
          \<not> covers (storage_buffer (storage_objs h ! s)) (Tensor_box (tensor_objs h ! t)) \<longrightarrow>
          Tensor_allocate h t = Inl AssertionFailed) \<and>
         (dimensions (tensor_buffer (tensor_objs h ! t)) < dimensions (storage_buffer (storage_objs h ! s)) \<longrightarrow>
          (\<exists>e. Tensor_allocate h t = Inl e))"
proof -
  let ?own = "tensor_buffer (tensor_objs h ! t)"
  let ?B = "storage_buffer (storage_objs h ! s)"
  let ?n = "length (buf_dim ?B)"
  obtain h2 where h2: "tensor_objs h2 = tensor_objs h"
      "length (storage_objs h2) = length (storage_objs h)"
      "TensorStorage_is_allocated (storage_objs h2 ! s)"
      "buf_dim (storage_buffer (storage_objs h2 ! s)) = buf_dim ?B"
    and run: "Tensor_allocate h t =
       (case allocate_crop ?own [0..<?n] (storage_buffer (storage_objs h2 ! s)) of
          Inl e \<Rightarrow> Inl e
        | Inr buffer \<Rightarrow>
            Inr (h2\<lparr>tensor_objs := (tensor_objs h2)
                      [t := (tensor_objs h2 ! t)\<lparr>tensor_buffer := buffer\<rparr>]\<rparr>))"
    using Tensor_allocate_bound [OF t bound s un] by blast
  let ?B2 = "storage_buffer (storage_objs h2 ! s)"
  have 1: "\<exists>h'. Tensor_allocate h t = Inr h' \<and>
             tensor_storage (tensor_objs h' ! t) = Some s \<and> s < length (storage_objs h') \<and>
             TensorStorage_is_allocated (storage_objs h' ! s) \<and>
             buf_dim (storage_buffer (storage_objs h' ! s)) = buf_dim ?B \<and>
             buf_dim (tensor_buffer (tensor_objs h' ! t)) = buf_dim ?own \<and>
             buf_data (tensor_buffer (tensor_objs h' ! t)) = buf_data (storage_buffer (storage_objs h' ! s)) \<and>
             Tensor_is_allocated (tensor_objs h' ! t)"
    if eq: "dimensions ?B = dimensions ?own" and cov: "covers ?B (Tensor_box (tensor_objs h ! t))"
  proof -
    have len: "length (buf_dim ?own) = ?n" using eq by (simp add: dimensions_def)
    have within: "\<forall>i\<in>set [0..<?n]. i < length (buf_dim ?own) \<and> i < length (buf_dim ?B2) \<and>
        dim_within (buf_dim ?own ! i) (buf_dim ?B2 ! i)"
      using cov len h2(4) by (simp add: covers_Tensor_box)
    have "allocate_crop ?own [0..<?n] ?B2 =
       Inr (?B2\<lparr>buf_dim := map (\<lambda>i. if i \<in> set [0..<?n] then buf_dim ?own ! i else buf_dim ?B2 ! i)
                          [0..<length (buf_dim ?B2)]\<rparr>)"
      using within by (intro allocate_crop_ok) simp_all
    moreover have "map (\<lambda>i. if i \<in> set [0..<?n] then buf_dim ?own ! i else buf_dim ?B2 ! i)
                          [0..<length (buf_dim ?B2)] = buf_dim ?own"
      using len h2(4) by (intro nth_equalityI) simp_all
    ultimately have crop: "allocate_crop ?own [0..<?n] ?B2 = Inr (?B2\<lparr>buf_dim := buf_dim ?own\<rparr>)"
      by simp
    let ?h' = "h2\<lparr>tensor_objs := (tensor_objs h2)
                      [t := (tensor_objs h2 ! t)\<lparr>tensor_buffer := ?B2\<lparr>buf_dim := buf_dim ?own\<rparr>\<rparr>]\<rparr>"
    have "Tensor_allocate h t = Inr ?h'" using run crop by simp
    moreover have "tensor_storage (tensor_objs ?h' ! t) = Some s" using t bound h2(1) by simp
    moreover have "s < length (storage_objs ?h')" using s h2(2) by simp
    moreover have "TensorStorage_is_allocated (storage_objs ?h' ! s)" using h2(3) by simp
    moreover have "buf_dim (storage_buffer (storage_objs ?h' ! s)) = buf_dim ?B" using h2(4) by simp
    moreover have "buf_dim (tensor_buffer (tensor_objs ?h' ! t)) = buf_dim ?own" using t h2(1) by simp
    moreover have "buf_data (tensor_buffer (tensor_objs ?h' ! t)) = buf_data (storage_buffer (storage_objs ?h' ! s))"
      using t h2(1) by simp
    moreover have "Tensor_is_allocated (tensor_objs ?h' ! t)"
      using t h2(1,3) by (simp add: Tensor_is_allocated_def TensorStorage_is_allocated_def)
    ultimately show ?thesis by blast
  qed
  have 2: "Tensor_allocate h t = Inl AssertionFailed"
    if eq: "dimensions ?B = dimensions ?own" and ncov: "\<not> covers ?B (Tensor_box (tensor_objs h ! t))"
  proof -
    have len: "length (buf_dim ?own) = ?n" using eq by (simp add: dimensions_def)
    have "\<exists>i\<in>set [0..<?n]. \<not> dim_within (buf_dim ?own ! i) (buf_dim ?B2 ! i)"
      using ncov len h2(4) by (auto simp: covers_Tensor_box)
    moreover have "\<forall>i\<in>set [0..<?n]. i < length (buf_dim ?own) \<and> i < length (buf_dim ?B2)"
      using len h2(4) by simp
    ultimately have "allocate_crop ?own [0..<?n] ?B2 = Inl AssertionFailed"
      by (intro allocate_crop_assert) simp_all
    then show ?thesis using run by simp
  qed
  have 3: "\<exists>e. Tensor_allocate h t = Inl e" if lt: "dimensions ?own < dimensions ?B"
  proof -
    have "length (buf_dim ?own) \<in> set [0..<?n]" using lt by (simp add: dimensions_def)
    then have "\<exists>i\<in>set [0..<?n]. \<not> (i < length (buf_dim ?own) \<and> dim_within (buf_dim ?own ! i) (buf_dim ?B2 ! i))"
      by blast
    moreover have "\<forall>i\<in>set [0..<?n]. i < length (buf_dim ?B2)" using h2(4) by simp
    ultimately obtain e where "allocate_crop ?own [0..<?n] ?B2 = Inl e"
      using allocate_crop_fail [of "[0..<?n]" ?B2 ?own] by auto
    then show ?thesis using run by simp
  qed
  show ?thesis using 1 2 3 by blast
qed

lemma covers_own: "covers (tensor_buffer T) (Tensor_box T)"
  by (simp add: covers_Tensor_box dim_within_def)

text \<open>What \<^verbatim>\<open>Tensor::allocate()\<close> does for a tensor that is not yet allocated (and whose
  storage pointer, when bound, names a storage), with \<open>B\<close> the buffer of the storage that
  \<^verbatim>\<open>storage()\<close> returns. When \<open>B\<close> has the tensor's rank and covers its declared bounds in
  every dimension, the call succeeds: the storage is allocated, keeps its dimensions, and the
  tensor's buffer becomes a view of the storage's data with exactly the tensor's declared min
  and extent in every dimension. When \<open>B\<close> has the tensor's rank and does not cover its bounds,
  the call fails an assertion; when \<open>B\<close> has more dimensions than the tensor the call fails
  too. A tensor that owns its storage always has a \<open>B\<close> of its rank that covers it.\<close>

theorem tensor_allocate_crops:
  assumes t: "t < length (tensor_objs h)"
    and un: "\<not> Tensor_is_allocated (tensor_objs h ! t)"
    and valid: "\<forall>s. tensor_storage (tensor_objs h ! t) = Some s \<longrightarrow> s < length (storage_objs h)"
  shows "(dimensions (storage_buffer_of h t) = dimensions (tensor_buffer (tensor_objs h ! t)) \<and>
          covers (storage_buffer_of h t) (Tensor_box (tensor_objs h ! t)) \<longrightarrow>
          (\<exists>h' s. Tensor_allocate h t = Inr h' \<and>
             tensor_storage (tensor_objs h' ! t) = Some s \<and> s < length (storage_objs h') \<and>
             TensorStorage_is_allocated (storage_objs h' ! s) \<and>
             buf_dim (storage_buffer (storage_objs h' ! s)) = buf_dim (storage_buffer_of h t) \<and>
             buf_dim (tensor_buffer (tensor_objs h' ! t)) = buf_dim (tensor_buffer (tensor_objs h ! t)) \<and>
             buf_data (tensor_buffer (tensor_objs h' ! t)) = buf_data (storage_buffer (storage_objs h' ! s)) \<and>
             Tensor_is_allocated (tensor_objs h' ! t))) \<and>
         (dimensions (storage_buffer_of h t) = dimensions (tensor_buffer (tensor_objs h ! t)) \<and>
          \<not> covers (storage_buffer_of h t) (Tensor_box (tensor_objs h ! t)) \<longrightarrow>
          Tensor_allocate h t = Inl AssertionFailed) \<and>
         (dimensions (tensor_buffer (tensor_objs h ! t)) < dimensions (storage_buffer_of h t) \<longrightarrow>
          (\<exists>e. Tensor_allocate h t = Inl e)) \<and>
         (tensor_storage (tensor_objs h ! t) = None \<longrightarrow>
          dimensions (storage_buffer_of h t) = dimensions (tensor_buffer (tensor_objs h ! t)) \<and>
          covers (storage_buffer_of h t) (Tensor_box (tensor_objs h ! t)))"
proof (cases "tensor_storage (tensor_objs h ! t)")
  case (Some s)
  have s: "s < length (storage_objs h)" using valid Some by simp
  have un': "buf_data (tensor_buffer (tensor_objs h ! t)) = None"
    using un by (simp add: Tensor_is_allocated_def)
  have B: "storage_buffer_of h t = storage_buffer (storage_objs h ! s)"
    using Some by (simp add: storage_buffer_of_def)
  note R = Tensor_allocate_bound_cases [OF t Some s un']
  show ?thesis unfolding B
  proof (intro conjI impI)
    assume "dimensions (storage_buffer (storage_objs h ! s)) = dimensions (tensor_buffer (tensor_objs h ! t)) \<and>
          covers (storage_buffer (storage_objs h ! s)) (Tensor_box (tensor_objs h ! t))"
    with R obtain h' where "Tensor_allocate h t = Inr h' \<and>
             tensor_storage (tensor_objs h' ! t) = Some s \<and> s < length (storage_objs h') \<and>
             TensorStorage_is_allocated (storage_objs h' ! s) \<and>
             buf_dim (storage_buffer (storage_objs h' ! s)) = buf_dim (storage_buffer (storage_objs h ! s)) \<and>
             buf_dim (tensor_buffer (tensor_objs h' ! t)) = buf_dim (tensor_buffer (tensor_objs h ! t)) \<and>
             buf_data (tensor_buffer (tensor_objs h' ! t)) = buf_data (storage_buffer (storage_objs h' ! s)) \<and>
             Tensor_is_allocated (tensor_objs h' ! t)"
      by blast
    then show "\<exists>h' sa. Tensor_allocate h t = Inr h' \<and>
             tensor_storage (tensor_objs h' ! t) = Some sa \<and> sa < length (storage_objs h') \<and>
             TensorStorage_is_allocated (storage_objs h' ! sa) \<and>
             buf_dim (storage_buffer (storage_objs h' ! sa)) = buf_dim (storage_buffer (storage_objs h ! s)) \<and>
             buf_dim (tensor_buffer (tensor_objs h' ! t)) = buf_dim (tensor_buffer (tensor_objs h ! t)) \<and>
             buf_data (tensor_buffer (tensor_objs h' ! t)) = buf_data (storage_buffer (storage_objs h' ! sa)) \<and>
             Tensor_is_allocated (tensor_objs h' ! t)"
      by (intro exI [of _ h'] exI [of _ s])
  next
    assume "dimensions (storage_buffer (storage_objs h ! s)) = dimensions (tensor_buffer (tensor_objs h ! t)) \<and>
          \<not> covers (storage_buffer (storage_objs h ! s)) (Tensor_box (tensor_objs h ! t))"
    with R show "Tensor_allocate h t = Inl AssertionFailed" by blast
  next
    assume "dimensions (tensor_buffer (tensor_objs h ! t)) < dimensions (storage_buffer (storage_objs h ! s))"
    with R show "\<exists>e. Tensor_allocate h t = Inl e" by blast
  next
    assume "tensor_storage (tensor_objs h ! t) = None"
    with Some show "dimensions (storage_buffer (storage_objs h ! s)) = dimensions (tensor_buffer (tensor_objs h ! t))"
      by simp
  next
    assume "tensor_storage (tensor_objs h ! t) = None"
    with Some show "covers (storage_buffer (storage_objs h ! s)) (Tensor_box (tensor_objs h ! t))"
      by simp
  qed
next
  case None
  let ?T = "tensor_objs h ! t"
  let ?s = "length (storage_objs h)"
  let ?h1 = "h\<lparr>tensor_objs := (tensor_objs h)[t := ?T\<lparr>tensor_storage := Some ?s\<rparr>],
             storage_objs := storage_objs h @ [\<lparr>storage_buffer = tensor_buffer ?T\<rparr>]\<rparr>"
  have un': "buf_data (tensor_buffer ?T) = None"
    using un by (simp add: Tensor_is_allocated_def)
  have B: "storage_buffer_of h t = tensor_buffer ?T"
    using None by (simp add: storage_buffer_of_def)
  have same: "Tensor_allocate h t = Tensor_allocate ?h1 t"
    using t None un' by (rule Tensor_allocate_new)
  have t1: "t < length (tensor_objs ?h1)" using t by simp
  have b1: "tensor_storage (tensor_objs ?h1 ! t) = Some ?s" using t by simp
  have s1: "?s < length (storage_objs ?h1)" by simp
  have u1: "buf_data (tensor_buffer (tensor_objs ?h1 ! t)) = None" using t un' by simp
  have own1: "tensor_buffer (tensor_objs ?h1 ! t) = tensor_buffer ?T" using t by simp
  have st1: "storage_buffer (storage_objs ?h1 ! ?s) = tensor_buffer ?T" by simp
  have box1: "Tensor_box (tensor_objs ?h1 ! t) = Tensor_box ?T"
    using own1 by (simp add: Tensor_box_def)
  have cov: "covers (tensor_buffer ?T) (Tensor_box ?T)" by (rule covers_own)
  have "\<exists>h'. Tensor_allocate ?h1 t = Inr h' \<and>
             tensor_storage (tensor_objs h' ! t) = Some ?s \<and> ?s < length (storage_objs h') \<and>
             TensorStorage_is_allocated (storage_objs h' ! ?s) \<and>
             buf_dim (storage_buffer (storage_objs h' ! ?s)) = buf_dim (storage_buffer (storage_objs ?h1 ! ?s)) \<and>
             buf_dim (tensor_buffer (tensor_objs h' ! t)) = buf_dim (tensor_buffer (tensor_objs ?h1 ! t)) \<and>
             buf_data (tensor_buffer (tensor_objs h' ! t)) = buf_data (storage_buffer (storage_objs h' ! ?s)) \<and>
             Tensor_is_allocated (tensor_objs h' ! t)"
    using Tensor_allocate_bound_cases [OF t1 b1 s1 u1] cov unfolding own1 st1 box1 by blast
  then have ok: "\<exists>h' s. Tensor_allocate h t = Inr h' \<and>
             tensor_storage (tensor_objs h' ! t) = Some s \<and> s < length (storage_objs h') \<and>
             TensorStorage_is_allocated (storage_objs h' ! s) \<and>
             buf_dim (storage_buffer (storage_objs h' ! s)) = buf_dim (tensor_buffer ?T) \<and>
             buf_dim (tensor_buffer (tensor_objs h' ! t)) = buf_dim (tensor_buffer ?T) \<and>
             buf_data (tensor_buffer (tensor_objs h' ! t)) = buf_data (storage_buffer (storage_objs h' ! s)) \<and>
             Tensor_is_allocated (tensor_objs h' ! t)"
    unfolding same own1 st1 by blast
  show ?thesis unfolding B
  proof (intro conjI impI)
    show "\<exists>h' s. Tensor_allocate h t = Inr h' \<and>
             tensor_storage (tensor_objs h' ! t) = Some s \<and> s < length (storage_objs h') \<and>
             TensorStorage_is_allocated (storage_objs h' ! s) \<and>
             buf_dim (storage_buffer (storage_objs h' ! s)) = buf_dim (tensor_buffer ?T) \<and>
             buf_dim (tensor_buffer (tensor_objs h' ! t)) = buf_dim (tensor_buffer ?T) \<and>
             buf_data (tensor_buffer (tensor_objs h' ! t)) = buf_data (storage_buffer (storage_objs h' ! s)) \<and>
             Tensor_is_allocated (tensor_objs h' ! t)"
      by (rule ok)
  next
    assume "dimensions (tensor_buffer ?T) = dimensions (tensor_buffer ?T) \<and>
          \<not> covers (tensor_buffer ?T) (Tensor_box ?T)"
    with cov show "Tensor_allocate h t = Inl AssertionFailed" by blast
  next
    assume "dimensions (tensor_buffer ?T) < dimensions (tensor_buffer ?T)"
    then show "\<exists>e. Tensor_allocate h t = Inl e" by simp
  next
    show "dimensions (tensor_buffer ?T) = dimensions (tensor_buffer ?T)" by simp
  next
    show "covers (tensor_buffer ?T) (Tensor_box ?T)" by (rule cov)
  qed
qed

theorem tensor_allocate_crops_witness:
  "(\<exists>h'. Tensor_allocate example_aliased_heap 0 = Inr h' \<and>
      buf_dim (tensor_buffer (tensor_objs h' ! 0)) = [\<lparr>dim_min = 0, dim_extent = 10\<rparr>] \<and>
      buf_dim (storage_buffer (storage_objs h' ! 0)) = [\<lparr>dim_min = - 2, dim_extent = 12\<rparr>] \<and>
      TensorStorage_is_allocated (storage_objs h' ! 0) \<and>
      Tensor_is_allocated (tensor_objs h' ! 0)) \<and>
   Tensor_allocate example_narrow_heap 0 = Inl AssertionFailed"
proof -
  have t: "0 < length (tensor_objs example_aliased_heap)" by (simp add: example_defs)
  have un: "\<not> Tensor_is_allocated (tensor_objs example_aliased_heap ! 0)"
    by (simp add: example_defs Tensor_is_allocated_def)
  have valid: "\<forall>s. tensor_storage (tensor_objs example_aliased_heap ! 0) = Some s \<longrightarrow>
      s < length (storage_objs example_aliased_heap)"
    by (simp add: example_defs)
  have B: "storage_buffer_of example_aliased_heap 0
      = \<lparr>buf_type = i32, buf_dim = [\<lparr>dim_min = - 2, dim_extent = 12\<rparr>], buf_data = None\<rparr>"
    by (simp add: example_defs storage_buffer_of_def)
  have own: "buf_dim (tensor_buffer (tensor_objs example_aliased_heap ! 0))
      = [\<lparr>dim_min = 0, dim_extent = 10\<rparr>]"
    by (simp add: example_defs)
  have pre: "dimensions (storage_buffer_of example_aliased_heap 0)
        = dimensions (tensor_buffer (tensor_objs example_aliased_heap ! 0)) \<and>
      covers (storage_buffer_of example_aliased_heap 0)
        (Tensor_box (tensor_objs example_aliased_heap ! 0))"
    unfolding B by (simp add: dimensions_def own covers_def Tensor_box_def dim_max_def)
  obtain h' s where h': "Tensor_allocate example_aliased_heap 0 = Inr h'"
      "tensor_storage (tensor_objs h' ! 0) = Some s"
      "TensorStorage_is_allocated (storage_objs h' ! s)"
      "buf_dim (storage_buffer (storage_objs h' ! s)) = buf_dim (storage_buffer_of example_aliased_heap 0)"
      "buf_dim (tensor_buffer (tensor_objs h' ! 0))
         = buf_dim (tensor_buffer (tensor_objs example_aliased_heap ! 0))"
      "Tensor_is_allocated (tensor_objs h' ! 0)"
    using tensor_allocate_crops [OF t un valid] pre by blast
  have "tensor_storage (tensor_objs h' ! 0) = Some 0"
    using h'(1)
    by (auto simp: example_defs Tensor_allocate_def Tensor_storage_def storage_allocate_def
        TensorStorage_is_allocated_def split: sum.splits if_splits)
  with h'(2) have s0: "s = 0" by simp
  have t2: "0 < length (tensor_objs example_narrow_heap)" by (simp add: example_defs)
  have un2: "\<not> Tensor_is_allocated (tensor_objs example_narrow_heap ! 0)"
    by (simp add: example_defs Tensor_is_allocated_def)
  have valid2: "\<forall>s. tensor_storage (tensor_objs example_narrow_heap ! 0) = Some s \<longrightarrow>
      s < length (storage_objs example_narrow_heap)"
    by (simp add: example_defs)
  have pre2: "dimensions (storage_buffer_of example_narrow_heap 0)
        = dimensions (tensor_buffer (tensor_objs example_narrow_heap ! 0)) \<and>
      \<not> covers (storage_buffer_of example_narrow_heap 0)
        (Tensor_box (tensor_objs example_narrow_heap ! 0))"
    by (simp add: example_defs storage_buffer_of_def dimensions_def covers_def Tensor_box_def
        dim_max_def)
  have bad: "Tensor_allocate example_narrow_heap 0 = Inl AssertionFailed"
    using tensor_allocate_crops [OF t2 un2 valid2] pre2 by blast
  show ?thesis using h' s0 B own bad by auto
qed


text \<open>The other direction of a rank mismatch: a storage with fewer dimensions than the tensor
  does not cover its bounds, yet no assertion fails: the loop crops the dimensions the storage
  has and the tensor is left with a view of the storage's rank.\<close>

lemma allocate_low_rank_storage:
  "\<not> covers (storage_buffer (storage_objs example_low_rank_heap ! 0))
       (Tensor_box (tensor_objs example_low_rank_heap ! 0)) \<and>
   Tensor_allocate example_low_rank_heap 0 =
     Inr \<lparr>tensor_objs =
        [(Tensor_ctor_bounds ''a'' i32
            [\<lparr>interval_min = 0, interval_max = 3\<rparr>, \<lparr>interval_min = 0, interval_max = 3\<rparr>] ())
           \<lparr>tensor_storage := Some 0,
            tensor_buffer := \<lparr>buf_type = i32, buf_dim = [\<lparr>dim_min = 0, dim_extent = 4\<rparr>],
                              buf_data = Some 0\<rparr>\<rparr>],
      storage_objs =
        [\<lparr>storage_buffer = \<lparr>buf_type = i32, buf_dim = [\<lparr>dim_min = 0, dim_extent = 4\<rparr>],
                             buf_data = Some 0\<rparr>\<rparr>],
      next_data = 1, next_op = 0\<rparr>"
  by (simp add: example_defs Tensor_storage_def Tensor_box_def dim_max_def dimensions_def
      covers_def Tensor_allocate_def storage_allocate_def crop_def
      TensorStorage_is_allocated_def TensorStorage_allocate_def make_with_shape_of_def Let_def)

subsection \<open>Tensor::set_alias_of (C5)\<close>

lemma covers_iff:
  "covers b box \<longleftrightarrow>
     length box \<le> length (buf_dim b) \<and>
     (\<forall>i<length box. sint (dim_min (buf_dim b ! i)) \<le> sint (interval_min (box ! i)) \<and>
                     sint (interval_max (box ! i)) \<le> sint (dim_max (buf_dim b ! i)))"
  by (auto simp: covers_def list_all_iff)

lemma add_use_result:
  assumes "add_use S ty bounds = Inr S'"
  shows "(dimensions (storage_buffer S) = 0 \<and>
            buf_dim (storage_buffer S') = map dim_of_interval bounds) \<or>
         (dimensions (storage_buffer S) \<noteq> 0 \<and> length (buf_dim (storage_buffer S)) = length bounds \<and>
            buf_dim (storage_buffer S') = map2 union_dim (buf_dim (storage_buffer S)) bounds)"
proof (cases "dimensions (storage_buffer S) = 0")
  case True
  then show ?thesis using assms by (auto simp: add_use_fresh)
next
  case False
  then have c: "buf_type (storage_buffer S) = ty" "buf_data (storage_buffer S) = None"
    "length (buf_dim (storage_buffer S)) = length bounds"
    using assms by (auto simp: add_use_def dimensions_def split: if_splits)
  from add_use_union [OF c] assms False c(3) show ?thesis by auto
qed

lemma add_use_covers_new:
  assumes "add_use S ty bounds = Inr S'"
  shows "covers (storage_buffer S') bounds"
  using add_use_result [OF assms]
  by (auto simp: covers_iff dim_of_interval_min dim_of_interval_max dim_min_union_dim
      dim_max_union_dim)

lemma add_use_covers_old:
  assumes "add_use S ty bounds = Inr S'" and "covers (storage_buffer S) box"
  shows "covers (storage_buffer S') box"
  using add_use_result [OF assms(1)] assms(2)
  by (auto simp: covers_iff dimensions_def dim_min_union_dim dim_max_union_dim)

lemma Tensor_storage_result:
  assumes run: "Tensor_storage h b = Inr (h1, s)"
    and inv: "\<forall>r. tensor_storage (tensor_objs h ! b) = Some r \<longrightarrow>
       covers (storage_buffer (storage_objs h ! r)) (Tensor_box (tensor_objs h ! b))"
  shows "b < length (tensor_objs h)"
    and "length (tensor_objs h1) = length (tensor_objs h)"
    and "tensor_storage (tensor_objs h1 ! b) = Some s"
    and "\<And>x. tensor_buffer (tensor_objs h1 ! x) = tensor_buffer (tensor_objs h ! x)"
    and "covers (storage_buffer (storage_objs h1 ! s)) (Tensor_box (tensor_objs h ! b))"
proof -
  show b: "b < length (tensor_objs h)"
    using run by (simp add: Tensor_storage_def split: if_splits)
  show "length (tensor_objs h1) = length (tensor_objs h)"
    using run by (auto simp: Tensor_storage_def split: if_splits option.splits sum.splits)
  show "tensor_storage (tensor_objs h1 ! b) = Some s"
    using run by (auto simp: Tensor_storage_def split: if_splits option.splits sum.splits)
  show "tensor_buffer (tensor_objs h1 ! x) = tensor_buffer (tensor_objs h ! x)" for x
    using run by (auto simp: Tensor_storage_def nth_list_update split: if_splits option.splits sum.splits)
  show "covers (storage_buffer (storage_objs h1 ! s)) (Tensor_box (tensor_objs h ! b))"
  proof (cases "tensor_storage (tensor_objs h ! b)")
    case (Some r)
    then have "h1 = h" "s = r" using run b by (simp_all add: Tensor_storage_def)
    then show ?thesis using inv Some by simp
  next
    case None
    then have "s = length (storage_objs h)"
      "storage_objs h1 = storage_objs h @ [\<lparr>storage_buffer = tensor_buffer (tensor_objs h ! b)\<rparr>]"
      using run b by (auto simp: Tensor_storage_def TensorStorage_ctor_def split: if_splits)
    then show ?thesis by (simp add: covers_own)
  qed
qed

text \<open>C5. After \<^verbatim>\<open>A.set_alias_of(B)\<close> has returned, \<^verbatim>\<open>A.storage()\<close> and
  \<^verbatim>\<open>B.storage()\<close> return the same storage object and leave the heap as it is, and the
  buffer of that storage covers, in every dimension, the declared bounds of \<open>A\<close> and those of
  \<open>B\<close>; the declared bounds themselves are unchanged. The hypothesis on \<open>B\<close> is the
  invariant of bound storages: a storage already bound to \<open>B\<close> covers the bounds of \<open>B\<close>.\<close>

theorem set_alias_of_shares_storage:
  assumes run: "Tensor_set_alias_of h a b = Inr h'"
    and inv: "\<forall>r. tensor_storage (tensor_objs h ! b) = Some r \<longrightarrow>
       covers (storage_buffer (storage_objs h ! r)) (Tensor_box (tensor_objs h ! b))"
  shows "\<exists>s. Tensor_storage h' a = Inr (h', s) \<and> Tensor_storage h' b = Inr (h', s) \<and>
     s < length (storage_objs h') \<and>
     covers (storage_buffer (storage_objs h' ! s)) (Tensor_box (tensor_objs h ! a)) \<and>
     covers (storage_buffer (storage_objs h' ! s)) (Tensor_box (tensor_objs h ! b)) \<and>
     Tensor_box (tensor_objs h' ! a) = Tensor_box (tensor_objs h ! a) \<and>
     Tensor_box (tensor_objs h' ! b) = Tensor_box (tensor_objs h ! b)"
proof -
  obtain h1 s where st: "Tensor_storage h b = Inr (h1, s)"
    using run by (auto simp: Tensor_set_alias_of_def split: sum.splits)
  note R = Tensor_storage_result [OF st inv]
  let ?h2 = "h1\<lparr>tensor_objs := (tensor_objs h1)[a := (tensor_objs h1 ! a)\<lparr>tensor_storage := Some s\<rparr>]\<rparr>"
  have a: "a < length (tensor_objs h1)"
    using run st by (simp add: Tensor_set_alias_of_def split: if_splits)
  have s: "s < length (storage_objs h1)"
    using run st a by (simp add: Tensor_set_alias_of_def Let_def split: if_splits)
  obtain S where S: "add_use (storage_objs h1 ! s) (Tensor_type (tensor_objs ?h2 ! a))
                               (Tensor_box (tensor_objs ?h2 ! a)) = Inr S"
    and h': "h' = ?h2\<lparr>storage_objs := (storage_objs h1)[s := S]\<rparr>"
    using run st a s by (auto simp: Tensor_set_alias_of_def Let_def split: sum.splits)
  have bufa: "tensor_buffer (tensor_objs ?h2 ! a) = tensor_buffer (tensor_objs h ! a)"
    using a R(4) [of a] by simp
  have boxa: "Tensor_box (tensor_objs ?h2 ! a) = Tensor_box (tensor_objs h ! a)"
    using bufa by (simp add: Tensor_box_def)
  have ta: "tensor_storage (tensor_objs h' ! a) = Some s" using a h' by simp
  have tb: "tensor_storage (tensor_objs h' ! b) = Some s"
    using a h' R(3) by (cases "a = b") simp_all
  have la: "a < length (tensor_objs h')" using a h' by simp
  have lb: "b < length (tensor_objs h')" using R(1,2) h' by simp
  have bufa': "tensor_buffer (tensor_objs h' ! a) = tensor_buffer (tensor_objs h ! a)"
    using h' bufa by simp
  have bufb': "tensor_buffer (tensor_objs h' ! b) = tensor_buffer (tensor_objs h ! b)"
    using h' bufa R(4) [of b] a by (cases "a = b") simp_all
  have Sh: "storage_objs h' ! s = S" using h' s by simp
  have "Tensor_storage h' a = Inr (h', s)" using la ta by (rule Tensor_storage_bound)
  moreover have "Tensor_storage h' b = Inr (h', s)" using lb tb by (rule Tensor_storage_bound)
  moreover have "s < length (storage_objs h')" using s h' by simp
  moreover have "covers (storage_buffer (storage_objs h' ! s)) (Tensor_box (tensor_objs h ! a))"
    using add_use_covers_new [OF S] unfolding Sh boxa .
  moreover have "covers (storage_buffer (storage_objs h' ! s)) (Tensor_box (tensor_objs h ! b))"
    using add_use_covers_old [OF S R(5)] unfolding Sh .
  moreover have "Tensor_box (tensor_objs h' ! a) = Tensor_box (tensor_objs h ! a)"
    using bufa' by (simp add: Tensor_box_def)
  moreover have "Tensor_box (tensor_objs h' ! b) = Tensor_box (tensor_objs h ! b)"
    using bufb' by (simp add: Tensor_box_def)
  ultimately show ?thesis by blast
qed

theorem set_alias_of_shares_storage_witness:
  "Tensor_set_alias_of example_alias_heap 0 1 = Inr example_aliased_heap \<and>
   Tensor_storage example_aliased_heap 0 = Inr (example_aliased_heap, 0) \<and>
   Tensor_storage example_aliased_heap 1 = Inr (example_aliased_heap, 0) \<and>
   covers (storage_buffer (storage_objs example_aliased_heap ! 0))
     (Tensor_box (tensor_objs example_alias_heap ! 0)) \<and>
   covers (storage_buffer (storage_objs example_aliased_heap ! 0))
     (Tensor_box (tensor_objs example_alias_heap ! 1))"
proof -
  have run: "Tensor_set_alias_of example_alias_heap 0 1 = Inr example_aliased_heap"
    by (simp add: example_defs Tensor_set_alias_of_def Tensor_storage_def TensorStorage_ctor_def
        Tensor_type_def Tensor_box_def dim_max_def add_use_def dimensions_def
        add_use_dim_def std_min_def std_max_def Let_def)
  have inv: "\<forall>r. tensor_storage (tensor_objs example_alias_heap ! 1) = Some r \<longrightarrow>
       covers (storage_buffer (storage_objs example_alias_heap ! r))
         (Tensor_box (tensor_objs example_alias_heap ! 1))"
    by (simp add: example_defs)
  obtain s where s: "Tensor_storage example_aliased_heap 0 = Inr (example_aliased_heap, s)"
      "Tensor_storage example_aliased_heap 1 = Inr (example_aliased_heap, s)"
      "covers (storage_buffer (storage_objs example_aliased_heap ! s))
         (Tensor_box (tensor_objs example_alias_heap ! 0))"
      "covers (storage_buffer (storage_objs example_aliased_heap ! s))
         (Tensor_box (tensor_objs example_alias_heap ! 1))"
    using set_alias_of_shares_storage [OF run inv] by blast
  have "Tensor_storage example_aliased_heap 0 = Inr (example_aliased_heap, 0)"
    by (simp add: example_defs Tensor_storage_def)
  with s(1) have "s = 0" by simp
  with run s show ?thesis by simp
qed

text \<open>The rank-0 case of \<^verbatim>\<open>add_use\<close> seen through \<^verbatim>\<open>set_alias_of\<close>: the scalar \<open>t\<close> is
  allocated, and then a tensor \<open>u\<close> of another type and rank is made an alias of it. No assertion
  fails: the shared storage takes the type and the bounds of \<open>u\<close> and is unallocated again,
  while \<open>t\<close> keeps its view of the data allocated before.\<close>

lemma set_alias_of_allocated_scalar:
  "Tensor_allocate example_unallocated_scalar_heap 1 = Inr example_allocated_scalar_heap \<and>
   Tensor_set_alias_of example_allocated_scalar_heap 0 1 =
     Inr \<lparr>tensor_objs =
        [(Tensor_ctor_bounds ''u'' f32 [\<lparr>interval_min = 0, interval_max = 3\<rparr>] ())
           \<lparr>tensor_storage := Some 0\<rparr>,
         (Tensor_ctor_bounds ''t'' i32 [] ())
           \<lparr>tensor_storage := Some 0,
            tensor_buffer := \<lparr>buf_type = i32, buf_dim = [], buf_data = Some 0\<rparr>\<rparr>],
      storage_objs = [\<lparr>storage_buffer = \<lparr>buf_type = f32,
          buf_dim = [\<lparr>dim_min = 0, dim_extent = 4\<rparr>], buf_data = None\<rparr>\<rparr>],
      next_data = 1, next_op = 0\<rparr>"
  by (simp add: example_defs Tensor_set_alias_of_def Tensor_storage_def TensorStorage_ctor_def
      Tensor_type_def Tensor_box_def dim_max_def add_use_def dimensions_def
      Tensor_allocate_def storage_allocate_def
      TensorStorage_is_allocated_def TensorStorage_allocate_def make_with_shape_of_def Let_def)

subsection \<open>The invariant of bound storages\<close>

text \<open>The hypothesis of C5, that a bound storage covers the bounds of its tensor, holds in
  every heap reached from the empty one by making tensors and calling \<^verbatim>\<open>storage()\<close>,
  \<^verbatim>\<open>set_alias_of\<close> and \<^verbatim>\<open>allocate()\<close>: each of them keeps the invariant.
  \<^verbatim>\<open>set_alias_of\<close> returns whenever the buffer of the target's storage has no
  dimension, or is unallocated with the type and rank of the tensor.\<close>

lemma storages_cover_empty: "storages_cover heap_empty"
  by (simp add: storages_cover_def heap_empty_def)

lemma storages_cover_new_tensor:
  "storages_cover h \<Longrightarrow>
   storages_cover (h\<lparr>tensor_objs := tensor_objs h @ [Tensor_ctor name buffer quantization]\<rparr>)"
  by (auto simp: storages_cover_def nth_append Tensor_ctor_def)

lemma storages_cover_storage:
  assumes inv: "storages_cover h" and run: "Tensor_storage h t = Inr (h1, s)"
  shows "storages_cover h1 \<and> s < length (storage_objs h1)"
proof (cases "tensor_storage (tensor_objs h ! t)")
  case (Some r)
  have t: "t < length (tensor_objs h)" using run by (simp add: Tensor_storage_def split: if_splits)
  then have "h1 = h" "s = r" using run Some by (simp_all add: Tensor_storage_def)
  then show ?thesis using inv Some t by (simp add: storages_cover_def)
next
  case None
  have t: "t < length (tensor_objs h)" using run by (simp add: Tensor_storage_def split: if_splits)
  have s: "s = length (storage_objs h)"
    and h1: "h1 = h\<lparr>tensor_objs := (tensor_objs h)
               [t := (tensor_objs h ! t)\<lparr>tensor_storage := Some (length (storage_objs h))\<rparr>],
             storage_objs := storage_objs h @ [\<lparr>storage_buffer = tensor_buffer (tensor_objs h ! t)\<rparr>]\<rparr>"
    using run t None by (auto simp: Tensor_storage_def TensorStorage_ctor_def split: if_splits)
  have "storages_cover h1"
    unfolding storages_cover_def
  proof (intro allI impI)
    fix x r assume x: "x < length (tensor_objs h1)" and b: "tensor_storage (tensor_objs h1 ! x) = Some r"
    show "r < length (storage_objs h1) \<and>
        covers (storage_buffer (storage_objs h1 ! r)) (Tensor_box (tensor_objs h1 ! x))"
    proof (cases "x = t")
      case True
      then have "r = length (storage_objs h)" using b t h1 by simp
      then show ?thesis using True t h1 by (simp add: Tensor_box_def covers_own [unfolded Tensor_box_def])
    next
      case False
      then have "tensor_objs h1 ! x = tensor_objs h ! x" using h1 by simp
      moreover have "x < length (tensor_objs h)" using x h1 by simp
      ultimately have "r < length (storage_objs h) \<and>
          covers (storage_buffer (storage_objs h ! r)) (Tensor_box (tensor_objs h ! x))"
        using inv b by (simp add: storages_cover_def)
      then show ?thesis using h1 \<open>tensor_objs h1 ! x = tensor_objs h ! x\<close> by (simp add: nth_append)
    qed
  qed
  then show ?thesis using s h1 by simp
qed

lemma storages_cover_set_alias_of:
  assumes inv: "storages_cover h" and run: "Tensor_set_alias_of h a b = Inr h'"
  shows "storages_cover h'"
proof -
  obtain h1 s where st: "Tensor_storage h b = Inr (h1, s)"
    using run by (auto simp: Tensor_set_alias_of_def split: sum.splits)
  have inv1: "storages_cover h1" and s: "s < length (storage_objs h1)"
    using storages_cover_storage [OF inv st] by simp_all
  let ?h2 = "h1\<lparr>tensor_objs := (tensor_objs h1)[a := (tensor_objs h1 ! a)\<lparr>tensor_storage := Some s\<rparr>]\<rparr>"
  have a: "a < length (tensor_objs h1)"
    using run st by (simp add: Tensor_set_alias_of_def split: if_splits)
  obtain S where S: "add_use (storage_objs h1 ! s) (Tensor_type (tensor_objs ?h2 ! a))
                               (Tensor_box (tensor_objs ?h2 ! a)) = Inr S"
    and h': "h' = ?h2\<lparr>storage_objs := (storage_objs h1)[s := S]\<rparr>"
    using run st a s by (auto simp: Tensor_set_alias_of_def Let_def split: sum.splits)
  have boxa: "Tensor_box (tensor_objs ?h2 ! a) = Tensor_box (tensor_objs h1 ! a)"
    using a by (simp add: Tensor_box_def)
  show ?thesis unfolding storages_cover_def
  proof (intro allI impI)
    fix x r assume x: "x < length (tensor_objs h')" and b: "tensor_storage (tensor_objs h' ! x) = Some r"
    have x1: "x < length (tensor_objs h1)" using x h' by simp
    have box: "Tensor_box (tensor_objs h' ! x) = Tensor_box (tensor_objs h1 ! x)"
      using h' a by (cases "x = a") (simp_all add: Tensor_box_def)
    show "r < length (storage_objs h') \<and>
        covers (storage_buffer (storage_objs h' ! r)) (Tensor_box (tensor_objs h' ! x))"
    proof (cases "x = a")
      case True
      then have "r = s" using b h' a by simp
      then show ?thesis
        using add_use_covers_new [OF S] s h' True boxa box by simp
    next
      case False
      then have "tensor_storage (tensor_objs h1 ! x) = Some r" using b h' by simp
      with inv1 x1 have r: "r < length (storage_objs h1)"
        "covers (storage_buffer (storage_objs h1 ! r)) (Tensor_box (tensor_objs h1 ! x))"
        by (simp_all add: storages_cover_def)
      show ?thesis
      proof (cases "r = s")
        case True
        then show ?thesis using add_use_covers_old [OF S] r s h' box by simp
      next
        case False
        then show ?thesis using r h' box by simp
      qed
    qed
  qed
qed

lemma allocate_crop_success:
  assumes "allocate_crop own is b = Inr b'" and "distinct is" and "\<forall>i\<in>set is. i < length (buf_dim b)"
  shows "\<forall>i\<in>set is. i < length (buf_dim own) \<and> dim_within (buf_dim own ! i) (buf_dim b ! i)"
proof (rule ccontr)
  assume "\<not> (\<forall>i\<in>set is. i < length (buf_dim own) \<and> dim_within (buf_dim own ! i) (buf_dim b ! i))"
  then have "\<exists>i\<in>set is. \<not> (i < length (buf_dim own) \<and> dim_within (buf_dim own ! i) (buf_dim b ! i))"
    by blast
  from allocate_crop_fail [OF assms(2,3) this] assms(1) show False by auto
qed

lemma covers_cong: "buf_dim b = buf_dim c \<Longrightarrow> covers b box = covers c box"
  by (simp add: covers_def)

lemma storages_cover_allocate_bound:
  assumes inv: "storages_cover h" and run: "Tensor_allocate h t = Inr h'"
    and t: "t < length (tensor_objs h)"
    and bound: "tensor_storage (tensor_objs h ! t) = Some s"
    and un: "buf_data (tensor_buffer (tensor_objs h ! t)) = None"
  shows "storages_cover h'"
proof -
  let ?own = "tensor_buffer (tensor_objs h ! t)"
  let ?B = "storage_buffer (storage_objs h ! s)"
  let ?n = "length (buf_dim ?B)"
  have s: "s < length (storage_objs h)" and cov: "covers ?B (Tensor_box (tensor_objs h ! t))"
    using inv t bound by (simp_all add: storages_cover_def)
  obtain h2 where h2: "storage_allocate h s = Inr h2" "tensor_objs h2 = tensor_objs h"
      "length (storage_objs h2) = length (storage_objs h)"
      "buf_dim (storage_buffer (storage_objs h2 ! s)) = buf_dim ?B"
    and eq: "Tensor_allocate h t =
       (case allocate_crop ?own [0..<?n] (storage_buffer (storage_objs h2 ! s)) of
          Inl e \<Rightarrow> Inl e
        | Inr buffer \<Rightarrow>
            Inr (h2\<lparr>tensor_objs := (tensor_objs h2)
                      [t := (tensor_objs h2 ! t)\<lparr>tensor_buffer := buffer\<rparr>]\<rparr>))"
    using Tensor_allocate_bound [OF t bound s un] by blast
  have others: "\<forall>r. r \<noteq> s \<longrightarrow> storage_objs h2 ! r = storage_objs h ! r"
    using storage_allocate_ok [OF s] h2(1) by auto
  let ?B2 = "storage_buffer (storage_objs h2 ! s)"
  obtain buffer where crop: "allocate_crop ?own [0..<?n] ?B2 = Inr buffer"
    and h': "h' = h2\<lparr>tensor_objs := (tensor_objs h2)
                      [t := (tensor_objs h2 ! t)\<lparr>tensor_buffer := buffer\<rparr>]\<rparr>"
    using run eq by (auto split: sum.splits)
  have within: "\<forall>i\<in>set [0..<?n]. i < length (buf_dim ?own) \<and> dim_within (buf_dim ?own ! i) (buf_dim ?B2 ! i)"
    using crop h2(4) by (intro allocate_crop_success [of ?own "[0..<?n]" ?B2 buffer]) simp_all
  have le1: "?n \<le> length (buf_dim ?own)"
  proof (cases "?n")
    case 0
    then show ?thesis by simp
  next
    case (Suc k)
    then have "k \<in> set [0..<?n]" by simp
    with within have "k < length (buf_dim ?own)" by blast
    then show ?thesis using Suc by simp
  qed
  have le2: "length (buf_dim ?own) \<le> ?n" using cov by (simp add: covers_Tensor_box)
  have len: "length (buf_dim ?own) = ?n" using le1 le2 by simp
  have "allocate_crop ?own [0..<?n] ?B2 =
       Inr (?B2\<lparr>buf_dim := map (\<lambda>i. if i \<in> set [0..<?n] then buf_dim ?own ! i else buf_dim ?B2 ! i)
                          [0..<length (buf_dim ?B2)]\<rparr>)"
    using within h2(4) by (intro allocate_crop_ok) simp_all
  moreover have "map (\<lambda>i. if i \<in> set [0..<?n] then buf_dim ?own ! i else buf_dim ?B2 ! i)
                          [0..<length (buf_dim ?B2)] = buf_dim ?own"
    using len h2(4) by (intro nth_equalityI) simp_all
  ultimately have dims: "buf_dim buffer = buf_dim ?own" using crop by simp
  show ?thesis unfolding storages_cover_def
  proof (intro allI impI)
    fix x r assume x: "x < length (tensor_objs h')" and b: "tensor_storage (tensor_objs h' ! x) = Some r"
    have x0: "x < length (tensor_objs h)" using x h' h2(2) by simp
    have b0: "tensor_storage (tensor_objs h ! x) = Some r"
      using b h' h2(2) t by (cases "x = t") simp_all
    have box: "Tensor_box (tensor_objs h' ! x) = Tensor_box (tensor_objs h ! x)"
      using h' h2(2) t dims by (cases "x = t") (simp_all add: Tensor_box_def)
    from inv x0 b0 have r: "r < length (storage_objs h)"
      "covers (storage_buffer (storage_objs h ! r)) (Tensor_box (tensor_objs h ! x))"
      by (simp_all add: storages_cover_def)
    have "buf_dim (storage_buffer (storage_objs h2 ! r)) = buf_dim (storage_buffer (storage_objs h ! r))"
      using h2(4) others by (cases "r = s") simp_all
    then have "covers (storage_buffer (storage_objs h2 ! r)) (Tensor_box (tensor_objs h ! x))"
      using r(2) covers_cong by blast
    then show "r < length (storage_objs h') \<and>
        covers (storage_buffer (storage_objs h' ! r)) (Tensor_box (tensor_objs h' ! x))"
      using r(1) h' h2(3) box by simp
  qed
qed

lemma storages_cover_allocate:
  assumes inv: "storages_cover h" and run: "Tensor_allocate h t = Inr h'"
  shows "storages_cover h'"
proof -
  have t: "t < length (tensor_objs h)"
    using run by (simp add: Tensor_allocate_def split: if_splits)
  show ?thesis
  proof (cases "buf_data (tensor_buffer (tensor_objs h ! t)) = None")
    case False
    then have "h' = h" using run t by (simp add: Tensor_allocate_def)
    then show ?thesis using inv by simp
  next
    case un: True
    show ?thesis
    proof (cases "tensor_storage (tensor_objs h ! t)")
      case (Some s)
      from inv run t Some un show ?thesis by (rule storages_cover_allocate_bound)
    next
      case None
      let ?h1 = "h\<lparr>tensor_objs := (tensor_objs h)
               [t := (tensor_objs h ! t)\<lparr>tensor_storage := Some (length (storage_objs h))\<rparr>],
             storage_objs := storage_objs h @ [\<lparr>storage_buffer = tensor_buffer (tensor_objs h ! t)\<rparr>]\<rparr>"
      have st: "Tensor_storage h t = Inr (?h1, length (storage_objs h))"
        using t None un by (rule Tensor_storage_new)
      have inv1: "storages_cover ?h1" using storages_cover_storage [OF inv st] by simp
      have run1: "Tensor_allocate ?h1 t = Inr h'"
        using run Tensor_allocate_new [OF t None un] by simp
      show ?thesis
        by (rule storages_cover_allocate_bound [OF inv1 run1, of "length (storage_objs h)"])
           (use t un in simp_all)
    qed
  qed
qed

lemma set_alias_of_succeeds:
  assumes a: "a < length (tensor_objs h)" and b: "b < length (tensor_objs h)"
    and store: "case tensor_storage (tensor_objs h ! b) of
                  None \<Rightarrow> \<not> Tensor_is_allocated (tensor_objs h ! b)
                | Some r \<Rightarrow> r < length (storage_objs h)"
    and compat: "dimensions (storage_buffer_of h b) = 0 \<or>
       buf_type (storage_buffer_of h b) = Tensor_type (tensor_objs h ! a) \<and>
       dimensions (storage_buffer_of h b) = dimensions (tensor_buffer (tensor_objs h ! a)) \<and>
       buf_data (storage_buffer_of h b) = None"
  shows "\<exists>h'. Tensor_set_alias_of h a b = Inr h'"
proof (cases "tensor_storage (tensor_objs h ! b)")
  case (Some r)
  have r: "r < length (storage_objs h)" using store Some by simp
  have st: "Tensor_storage h b = Inr (h, r)" using b Some by (rule Tensor_storage_bound)
  have B: "storage_buffer_of h b = storage_buffer (storage_objs h ! r)"
    using Some by (simp add: storage_buffer_of_def)
  show ?thesis
    using a r compat unfolding B
    by (auto simp: Tensor_set_alias_of_def st Let_def add_use_def Tensor_type_def Tensor_box_def
        dimensions_def)
next
  case None
  have un: "buf_data (tensor_buffer (tensor_objs h ! b)) = None"
    using store None by (simp add: Tensor_is_allocated_def)
  have B: "storage_buffer_of h b = tensor_buffer (tensor_objs h ! b)"
    using None by (simp add: storage_buffer_of_def)
  note st = Tensor_storage_new [OF b None un]
  show ?thesis
    using a b compat un unfolding B
    by (cases "a = b")
       (auto simp: Tensor_set_alias_of_def st Let_def add_use_def Tensor_type_def Tensor_box_def
        dimensions_def nth_append)
qed

subsection \<open>The copy constructor of Model (C1)\<close>

lemma copy_tensors_total:
  "\<forall>p\<in>set ts. p < length (tensor_objs h) \<Longrightarrow> \<exists>r. Model_copy_tensors h m ts = Inr r"
proof (induction ts arbitrary: h m)
  case Nil
  then show ?case by simp
next
  case (Cons i rest)
  show ?case
  proof (cases "Tensor_is_allocated (tensor_objs h ! i)")
    case True
    have "\<exists>r. Model_copy_tensors h m rest = Inr r"
      by (rule Cons.IH) (use Cons.prems in simp)
    then obtain r where "Model_copy_tensors h m rest = Inr r" by blast
    then show ?thesis using True Cons.prems by (cases r) simp
  next
    case False
    let ?h1 = "h\<lparr>tensor_objs := tensor_objs h @ [Tensor_copy (tensor_objs h ! i)]\<rparr>"
    have "\<forall>p\<in>set rest. p < length (tensor_objs ?h1)" using Cons.prems by auto
    then have "\<exists>r. Model_copy_tensors ?h1 (m(i \<mapsto> length (tensor_objs h))) rest = Inr r"
      by (rule Cons.IH)
    then obtain r where "Model_copy_tensors ?h1 (m(i \<mapsto> length (tensor_objs h))) rest = Inr r"
      by blast
    then show ?thesis using False Cons.prems by (cases r) (simp del: fun_upd_apply)
  qed
qed

lemma copy_tensors_cases:
  assumes "Model_copy_tensors h m (i # rest) = Inr (h', m', ts')"
  obtains (shared) rest' where "i < length (tensor_objs h)" "Tensor_is_allocated (tensor_objs h ! i)"
      "Model_copy_tensors h m rest = Inr (h', m', rest')" "ts' = i # rest'"
  | (cloned) rest' where "i < length (tensor_objs h)" "\<not> Tensor_is_allocated (tensor_objs h ! i)"
      "Model_copy_tensors (h\<lparr>tensor_objs := tensor_objs h @ [Tensor_copy (tensor_objs h ! i)]\<rparr>)
          (m(i \<mapsto> length (tensor_objs h))) rest = Inr (h', m', rest')"
      "ts' = length (tensor_objs h) # rest'"
  using assms by (auto split: if_splits sum.splits)

lemma copy_tensors_heap:
  "Model_copy_tensors h m ts = Inr (h', m', ts') \<Longrightarrow>
   length ts' = length ts \<and>
   (\<exists>new. tensor_objs h' = tensor_objs h @ new) \<and>
   storage_objs h' = storage_objs h \<and> next_data h' = next_data h \<and> next_op h' = next_op h"
proof (induction ts arbitrary: h m h' m' ts')
  case Nil
  then show ?case by simp
next
  case (Cons i rest)
  from Cons.prems show ?case
  proof (cases rule: copy_tensors_cases)
    case (shared rest')
    from Cons.IH [OF shared(3)] shared show ?thesis by simp
  next
    case (cloned rest')
    from Cons.IH [OF cloned(3)] cloned show ?thesis by auto
  qed
qed

lemma copy_tensors_nth:
  "Model_copy_tensors h m ts = Inr (h', m', ts') \<Longrightarrow>
   \<forall>p\<in>set ts. p < length (tensor_objs h) \<Longrightarrow> k < length ts \<Longrightarrow>
   (Tensor_is_allocated (tensor_objs h ! (ts ! k)) \<longrightarrow> ts' ! k = ts ! k) \<and>
   (\<not> Tensor_is_allocated (tensor_objs h ! (ts ! k)) \<longrightarrow>
      length (tensor_objs h) \<le> ts' ! k \<and> ts' ! k < length (tensor_objs h') \<and>
      tensor_objs h' ! (ts' ! k) = Tensor_copy (tensor_objs h ! (ts ! k)))"
proof (induction ts arbitrary: h m h' m' ts' k)
  case Nil
  then show ?case by simp
next
  case (Cons i rest)
  from Cons.prems(1) show ?case
  proof (cases rule: copy_tensors_cases)
    case (shared rest')
    show ?thesis
    proof (cases k)
      case 0
      then show ?thesis using shared by simp
    next
      case (Suc k')
      have "k' < length rest" using Cons.prems(3) Suc by simp
      from Cons.IH [OF shared(3) _ this] Cons.prems(2) show ?thesis using Suc shared(4) by simp
    qed
  next
    case (cloned rest')
    let ?h1 = "h\<lparr>tensor_objs := tensor_objs h @ [Tensor_copy (tensor_objs h ! i)]\<rparr>"
    obtain new where new: "tensor_objs h' = tensor_objs ?h1 @ new"
      using copy_tensors_heap [OF cloned(3)] by blast
    show ?thesis
    proof (cases k)
      case 0
      then show ?thesis using cloned new by (simp add: nth_append)
    next
      case (Suc k')
      have k': "k' < length rest" using Cons.prems(3) Suc by simp
      have v: "\<forall>p\<in>set rest. p < length (tensor_objs ?h1)" using Cons.prems(2) by auto
      have r: "rest ! k' < length (tensor_objs h)" using Cons.prems(2) k' by simp
      from Cons.IH [OF cloned(3) v k'] r show ?thesis using Suc cloned(4) by (auto simp: nth_append)
    qed
  qed
qed

lemma copy_tensors_map:
  "Model_copy_tensors h m ts = Inr (h', m', ts') \<Longrightarrow>
   \<forall>p\<in>set ts. p < length (tensor_objs h) \<Longrightarrow>
   (x \<in> set ts \<and> \<not> Tensor_is_allocated (tensor_objs h ! x) \<longrightarrow>
      (\<exists>j<length ts. ts ! j = x \<and> m' x = Some (ts' ! j))) \<and>
   (\<not> (x \<in> set ts \<and> \<not> Tensor_is_allocated (tensor_objs h ! x)) \<longrightarrow> m' x = m x)"
proof (induction ts arbitrary: h m h' m' ts')
  case Nil
  then show ?case by simp
next
  case (Cons i rest)
  from Cons.prems(1) show ?case
  proof (cases rule: copy_tensors_cases)
    case (shared rest')
    have v: "\<forall>p\<in>set rest. p < length (tensor_objs h)" using Cons.prems(2) by simp
    note IH = Cons.IH [OF shared(3) v]
    show ?thesis
    proof (intro conjI impI)
      assume a: "x \<in> set (i # rest) \<and> \<not> Tensor_is_allocated (tensor_objs h ! x)"
      then have "x \<in> set rest" using shared(2) by auto
      with IH a obtain j where "j < length rest" "rest ! j = x" "m' x = Some (rest' ! j)" by blast
      then show "\<exists>j<length (i # rest). (i # rest) ! j = x \<and> m' x = Some (ts' ! j)"
        using shared(4) by (intro exI [of _ "Suc j"]) simp
    next
      assume "\<not> (x \<in> set (i # rest) \<and> \<not> Tensor_is_allocated (tensor_objs h ! x))"
      then have "\<not> (x \<in> set rest \<and> \<not> Tensor_is_allocated (tensor_objs h ! x))" by auto
      with IH show "m' x = m x" by blast
    qed
  next
    case (cloned rest')
    let ?h1 = "h\<lparr>tensor_objs := tensor_objs h @ [Tensor_copy (tensor_objs h ! i)]\<rparr>"
    let ?m1 = "m(i \<mapsto> length (tensor_objs h))"
    have v: "\<forall>p\<in>set rest. p < length (tensor_objs ?h1)" using Cons.prems(2) by auto
    note IH = Cons.IH [OF cloned(3) v]
    have same: "Tensor_is_allocated (tensor_objs ?h1 ! x) = Tensor_is_allocated (tensor_objs h ! x)"
      if "x \<in> set rest"
      using that Cons.prems(2) by (simp add: nth_append)
    show ?thesis
    proof (intro conjI impI)
      assume a: "x \<in> set (i # rest) \<and> \<not> Tensor_is_allocated (tensor_objs h ! x)"
      show "\<exists>j<length (i # rest). (i # rest) ! j = x \<and> m' x = Some (ts' ! j)"
      proof (cases "x \<in> set rest")
        case True
        with IH a same obtain j where "j < length rest" "rest ! j = x" "m' x = Some (rest' ! j)"
          by blast
        then show ?thesis using cloned(4) by (intro exI [of _ "Suc j"]) simp
      next
        case False
        then have "x = i" using a by simp
        moreover have "m' x = ?m1 x" using IH False by blast
        ultimately show ?thesis using cloned(4) by (intro exI [of _ 0]) simp
      qed
    next
      assume n: "\<not> (x \<in> set (i # rest) \<and> \<not> Tensor_is_allocated (tensor_objs h ! x))"
      then have xi: "x \<noteq> i" using cloned(2) by auto
      have "\<not> (x \<in> set rest \<and> \<not> Tensor_is_allocated (tensor_objs ?h1 ! x))"
        using n same by auto
      with IH have "m' x = ?m1 x" by blast
      then show "m' x = m x" using xi by simp
    qed
  qed
qed

lemma copy_ops_result:
  "Model_copy_ops h m os = (h', os') \<Longrightarrow>
   length os' = length os \<and> tensor_objs h' = tensor_objs h \<and> storage_objs h' = storage_objs h \<and>
   (\<forall>k<length os. op_inputs (os' ! k) = map (apply_map m) (op_inputs (os ! k)) \<and>
                   op_outputs (os' ! k) = map (apply_map m) (op_outputs (os ! k)))"
proof (induction os arbitrary: h h' os')
  case Nil
  then show ?case by simp
next
  case (Cons i rest)
  obtain h1 rest' where r: "Model_copy_ops (h\<lparr>next_op := Suc (next_op h)\<rparr>) m rest = (h1, rest')"
    by (cases "Model_copy_ops (h\<lparr>next_op := Suc (next_op h)\<rparr>) m rest")
  with Cons.prems have e: "h' = h1" "os' = Op_clone (next_op h) m i # rest'" by simp_all
  from Cons.IH [OF r] e show ?case
    by (auto simp: Op_clone_def nth_Cons split: nat.splits)
qed

text \<open>C1. Cloning a model whose tensor pointers name tensors of the heap succeeds. The clone
  has as many tensors as the source, and the objects of the source are untouched. At a position
  where the source's tensor is allocated the clone holds the same address: an update of the
  object through one is read through the other. At a position where it is not allocated the
  clone holds the address of a new object, different from every address of the source, with the
  same name, buffer (type and bounds, no data) and quantization and with no storage bound:
  an update through one address is not seen through the other. Every op is cloned in order,
  its inputs and outputs passed through a function \<open>f\<close> that maps an unallocated tensor of
  the model to a clone of it in the clone's list and leaves every other address as it is.\<close>

theorem model_copy_sharing:
  assumes valid: "\<forall>p\<in>set (tensors m). p < length (tensor_objs h)"
  shows "\<exists>h' m' f. Model_copy h m = Inr (h', m') \<and>
     length (tensors m') = length (tensors m) \<and>
     take (length (tensor_objs h)) (tensor_objs h') = tensor_objs h \<and>
     storage_objs h' = storage_objs h \<and>
     (\<forall>k<length (tensors m).
        (Tensor_is_allocated (tensor_objs h ! (tensors m ! k)) \<longrightarrow>
           tensors m' ! k = tensors m ! k \<and>
           (\<forall>T. (tensor_objs h')[tensors m ! k := T] ! (tensors m' ! k) = T)) \<and>
        (\<not> Tensor_is_allocated (tensor_objs h ! (tensors m ! k)) \<longrightarrow>
           length (tensor_objs h) \<le> tensors m' ! k \<and>
           tensors m' ! k < length (tensor_objs h') \<and>
           tensors m' ! k \<notin> set (tensors m) \<and>
           tensor_name (tensor_objs h' ! (tensors m' ! k))
             = tensor_name (tensor_objs h ! (tensors m ! k)) \<and>
           tensor_buffer (tensor_objs h' ! (tensors m' ! k))
             = tensor_buffer (tensor_objs h ! (tensors m ! k)) \<and>
           tensor_quantization (tensor_objs h' ! (tensors m' ! k))
             = tensor_quantization (tensor_objs h ! (tensors m ! k)) \<and>
           tensor_storage (tensor_objs h' ! (tensors m' ! k)) = None \<and>
           \<not> Tensor_is_allocated (tensor_objs h' ! (tensors m' ! k)) \<and>
           (\<forall>T. (tensor_objs h')[tensors m ! k := T] ! (tensors m' ! k)
                  = tensor_objs h' ! (tensors m' ! k)) \<and>
           (\<forall>T. (tensor_objs h')[tensors m' ! k := T] ! (tensors m ! k)
                  = tensor_objs h' ! (tensors m ! k)))) \<and>
     length (ops m') = length (ops m) \<and>
     (\<forall>k<length (ops m).
        op_inputs (ops m' ! k) = map f (op_inputs (ops m ! k)) \<and>
        op_outputs (ops m' ! k) = map f (op_outputs (ops m ! k))) \<and>
     (\<forall>x. (x \<in> set (tensors m) \<and> \<not> Tensor_is_allocated (tensor_objs h ! x) \<longrightarrow>
             (\<exists>j<length (tensors m). tensors m ! j = x \<and> f x = tensors m' ! j)) \<and>
          (\<not> (x \<in> set (tensors m) \<and> \<not> Tensor_is_allocated (tensor_objs h ! x)) \<longrightarrow> f x = x))"
proof -
  obtain h1 mp ts' where ct: "Model_copy_tensors h Map.empty (tensors m) = Inr (h1, mp, ts')"
    using copy_tensors_total [OF valid, of Map.empty] by (metis prod_cases3)
  obtain h2 os' where co: "Model_copy_ops h1 mp (ops m) = (h2, os')"
    by (cases "Model_copy_ops h1 mp (ops m)")
  let ?m' = "\<lparr>tensors = ts', ops = os'\<rparr>"
  have run: "Model_copy h m = Inr (h2, ?m')" by (simp add: Model_copy_def ct co)
  obtain new where heap1: "length ts' = length (tensors m)" "tensor_objs h1 = tensor_objs h @ new"
      "storage_objs h1 = storage_objs h"
    using copy_tensors_heap [OF ct] by blast
  have ops: "length os' = length (ops m)" "tensor_objs h2 = tensor_objs h1"
      "storage_objs h2 = storage_objs h1"
      "\<forall>k<length (ops m). op_inputs (os' ! k) = map (apply_map mp) (op_inputs (ops m ! k)) \<and>
                   op_outputs (os' ! k) = map (apply_map mp) (op_outputs (ops m ! k))"
    using copy_ops_result [OF co] by simp_all
  have heap2: "tensor_objs h2 = tensor_objs h @ new" using ops(2) heap1(2) by simp
  have tens: "(Tensor_is_allocated (tensor_objs h ! (tensors m ! k)) \<longrightarrow>
           tensors ?m' ! k = tensors m ! k \<and>
           (\<forall>T. (tensor_objs h2)[tensors m ! k := T] ! (tensors ?m' ! k) = T)) \<and>
        (\<not> Tensor_is_allocated (tensor_objs h ! (tensors m ! k)) \<longrightarrow>
           length (tensor_objs h) \<le> tensors ?m' ! k \<and>
           tensors ?m' ! k < length (tensor_objs h2) \<and>
           tensors ?m' ! k \<notin> set (tensors m) \<and>
           tensor_name (tensor_objs h2 ! (tensors ?m' ! k))
             = tensor_name (tensor_objs h ! (tensors m ! k)) \<and>
           tensor_buffer (tensor_objs h2 ! (tensors ?m' ! k))
             = tensor_buffer (tensor_objs h ! (tensors m ! k)) \<and>
           tensor_quantization (tensor_objs h2 ! (tensors ?m' ! k))
             = tensor_quantization (tensor_objs h ! (tensors m ! k)) \<and>
           tensor_storage (tensor_objs h2 ! (tensors ?m' ! k)) = None \<and>
           \<not> Tensor_is_allocated (tensor_objs h2 ! (tensors ?m' ! k)) \<and>
           (\<forall>T. (tensor_objs h2)[tensors m ! k := T] ! (tensors ?m' ! k)
                  = tensor_objs h2 ! (tensors ?m' ! k)) \<and>
           (\<forall>T. (tensor_objs h2)[tensors ?m' ! k := T] ! (tensors m ! k)
                  = tensor_objs h2 ! (tensors m ! k)))"
    if k: "k < length (tensors m)" for k
  proof -
    note N = copy_tensors_nth [OF ct valid k]
    have w: "tensors m ! k < length (tensor_objs h)" using valid k by simp
    show ?thesis
    proof (intro conjI impI)
      assume a: "Tensor_is_allocated (tensor_objs h ! (tensors m ! k))"
      with N show "tensors ?m' ! k = tensors m ! k" by simp
      with w show "\<forall>T. (tensor_objs h2)[tensors m ! k := T] ! (tensors ?m' ! k) = T"
        by (simp add: heap2)
    next
      assume a: "\<not> Tensor_is_allocated (tensor_objs h ! (tensors m ! k))"
      with N have c: "length (tensor_objs h) \<le> ts' ! k" "ts' ! k < length (tensor_objs h1)"
        "tensor_objs h1 ! (ts' ! k) = Tensor_copy (tensor_objs h ! (tensors m ! k))" by simp_all
      show "length (tensor_objs h) \<le> tensors ?m' ! k" using c(1) by simp
      show "tensors ?m' ! k < length (tensor_objs h2)" using c(2) ops(2) by simp
      show "tensors ?m' ! k \<notin> set (tensors m)" using c(1) valid by auto
      show "tensor_name (tensor_objs h2 ! (tensors ?m' ! k))
             = tensor_name (tensor_objs h ! (tensors m ! k))"
        using c(3) ops(2) by (simp add: Tensor_copy_def)
      show "tensor_buffer (tensor_objs h2 ! (tensors ?m' ! k))
             = tensor_buffer (tensor_objs h ! (tensors m ! k))"
        using c(3) ops(2) by (simp add: Tensor_copy_def)
      show "tensor_quantization (tensor_objs h2 ! (tensors ?m' ! k))
             = tensor_quantization (tensor_objs h ! (tensors m ! k))"
        using c(3) ops(2) by (simp add: Tensor_copy_def)
      show "tensor_storage (tensor_objs h2 ! (tensors ?m' ! k)) = None"
        using c(3) ops(2) by (simp add: Tensor_copy_def)
      show "\<not> Tensor_is_allocated (tensor_objs h2 ! (tensors ?m' ! k))"
        using c(3) ops(2) a by (simp add: Tensor_copy_def Tensor_is_allocated_def)
      have ne: "tensors m ! k \<noteq> ts' ! k" using c(1) w by simp
      show "\<forall>T. (tensor_objs h2)[tensors m ! k := T] ! (tensors ?m' ! k)
                  = tensor_objs h2 ! (tensors ?m' ! k)"
        using ne by simp
      show "\<forall>T. (tensor_objs h2)[tensors ?m' ! k := T] ! (tensors m ! k)
                  = tensor_objs h2 ! (tensors m ! k)"
        using ne by simp
    qed
  qed
  have map: "(x \<in> set (tensors m) \<and> \<not> Tensor_is_allocated (tensor_objs h ! x) \<longrightarrow>
             (\<exists>j<length (tensors m). tensors m ! j = x \<and> apply_map mp x = tensors ?m' ! j)) \<and>
          (\<not> (x \<in> set (tensors m) \<and> \<not> Tensor_is_allocated (tensor_objs h ! x)) \<longrightarrow>
             apply_map mp x = x)" for x
    using copy_tensors_map [OF ct valid, of x] by (auto simp: apply_map_def)
  have "length (tensors ?m') = length (tensors m)" using heap1(1) by simp
  moreover have "take (length (tensor_objs h)) (tensor_objs h2) = tensor_objs h"
    using heap2 by simp
  moreover have "storage_objs h2 = storage_objs h" using ops(3) heap1(3) by simp
  moreover have "length (ops ?m') = length (ops m)" using ops(1) by simp
  moreover have "\<forall>k<length (ops m).
        op_inputs (ops ?m' ! k) = map (apply_map mp) (op_inputs (ops m ! k)) \<and>
        op_outputs (ops ?m' ! k) = map (apply_map mp) (op_outputs (ops m ! k))"
    using ops(4) by simp
  ultimately show ?thesis using run tens map
    by (intro exI [of _ h2] exI [of _ ?m'] exI [of _ "apply_map mp"]) blast
qed

theorem model_copy_sharing_witness:
  "Model_copy example_model_heap example_model
     = Inr (example_model_heap\<lparr>tensor_objs := tensor_objs example_model_heap @
               [Tensor_ctor_bounds ''x'' i32 [\<lparr>interval_min = 0, interval_max = 3\<rparr>] ()],
             next_op := 2\<rparr>,
            \<lparr>tensors = [0, 2], ops = [\<lparr>op_addr = 1, op_inputs = [0, 2], op_outputs = [2]\<rparr>]\<rparr>) \<and>
   Tensor_is_allocated (tensor_objs example_model_heap ! 0) \<and>
   \<not> Tensor_is_allocated (tensor_objs example_model_heap ! 1)"
proof -
  have valid: "\<forall>p\<in>set (tensors example_model). p < length (tensor_objs example_model_heap)"
    by (simp add: example_defs)
  have w: "Tensor_is_allocated (tensor_objs example_model_heap ! 0)"
    by (simp add: example_defs Tensor_is_allocated_def)
  have x: "\<not> Tensor_is_allocated (tensor_objs example_model_heap ! 1)"
    by (simp add: example_defs Tensor_is_allocated_def)
  obtain h' m' where c: "Model_copy example_model_heap example_model = Inr (h', m')"
      "\<forall>k<length (tensors example_model).
        (Tensor_is_allocated (tensor_objs example_model_heap ! (tensors example_model ! k)) \<longrightarrow>
           tensors m' ! k = tensors example_model ! k)"
    using model_copy_sharing [OF valid] by blast
  have "tensors m' ! 0 = 0" using c(2) w by (simp add: example_model_def)
  have run: "Model_copy example_model_heap example_model
     = Inr (example_model_heap\<lparr>tensor_objs := tensor_objs example_model_heap @
               [Tensor_ctor_bounds ''x'' i32 [\<lparr>interval_min = 0, interval_max = 3\<rparr>] ()],
             next_op := 2\<rparr>,
            \<lparr>tensors = [0, 2], ops = [\<lparr>op_addr = 1, op_inputs = [0, 2], op_outputs = [2]\<rparr>]\<rparr>)"
    by (simp add: example_defs Model_copy_def Tensor_is_allocated_def Tensor_copy_def
        Op_clone_def apply_map_def)
  show ?thesis using run w x c(1) by simp
qed

text \<open>\<^verbatim>\<open>Tensor::allocate()\<close> changes no tensor object but its own: an unallocated tensor
  of the source and its clone, at different addresses and with no storage in common, are
  allocated independently of each other.\<close>

lemma Tensor_storage_frame:
  "Tensor_storage h t = Inr (h1, s) \<Longrightarrow> x \<noteq> t \<Longrightarrow>
   tensor_objs h1 ! x = tensor_objs h ! x \<and> length (tensor_objs h1) = length (tensor_objs h)"
  by (auto simp: Tensor_storage_def split: if_splits option.splits sum.splits)

lemma storage_allocate_frame:
  "storage_allocate h s = Inr h1 \<Longrightarrow> tensor_objs h1 = tensor_objs h"
  by (auto simp: storage_allocate_def split: if_splits)

lemma Tensor_allocate_frame:
  assumes "Tensor_allocate h t = Inr h'" and "x \<noteq> t"
  shows "tensor_objs h' ! x = tensor_objs h ! x \<and> length (tensor_objs h') = length (tensor_objs h)"
proof (cases "buf_data (tensor_buffer (tensor_objs h ! t)) = None")
  case False
  then have "h' = h" using assms(1) by (simp add: Tensor_allocate_def split: if_splits)
  then show ?thesis by simp
next
  case True
  from assms(1) True obtain h1 s h2 h3 s' buffer where
      a: "Tensor_storage h t = Inr (h1, s)" and b: "storage_allocate h1 s = Inr h2"
      and c: "Tensor_storage h2 t = Inr (h3, s')"
      and d: "h' = h3\<lparr>tensor_objs := (tensor_objs h3)[t := (tensor_objs h3 ! t)\<lparr>tensor_buffer := buffer\<rparr>]\<rparr>"
    by (auto simp: Tensor_allocate_def split: if_splits sum.splits prod.splits)
  from Tensor_storage_frame [OF a assms(2)] storage_allocate_frame [OF b]
    Tensor_storage_frame [OF c assms(2)] d assms(2)
  show ?thesis by simp
qed

end
